theory Spec2Isabelle
  imports Main
begin

section \<open>Python values: exceptions, list indexing, loops\<close>

text \<open>
  Every exception the modelled code can raise is a value; a function that can raise returns
  \<open>error + 'a\<close>, with \<open>Inl\<close> the exception.
\<close>

datatype error =
    IndexError | KeyError | ValueError | RuntimeError | UnboundLocalError
  | ZeroDivisionError | NodeNotFound | NetworkXNoPath

definition rbind :: "error + 'a \<Rightarrow> ('a \<Rightarrow> error + 'b) \<Rightarrow> error + 'b" where
  "rbind m f = (case m of Inl e \<Rightarrow> Inl e | Inr x \<Rightarrow> f x)"

text \<open>\<open>xs[i]\<close> on a Python list: a negative index counts from the end.\<close>

definition py_index :: "'a list \<Rightarrow> int \<Rightarrow> error + 'a" where
  "py_index xs i =
     (if 0 \<le> i \<and> i < int (length xs) then Inr (xs ! nat i)
      else if i < 0 \<and> - int (length xs) \<le> i then Inr (xs ! nat (int (length xs) + i))
      else Inl IndexError)"

text \<open>\<open>for x in xs: body\<close> over a loop state; an exception in the body leaves the loop.\<close>

fun for_each :: "'a list \<Rightarrow> ('a \<Rightarrow> 's \<Rightarrow> error + 's) \<Rightarrow> 's \<Rightarrow> error + 's" where
  "for_each [] body s = Inr s"
| "for_each (x # xs) body s = rbind (body x s) (for_each xs body)"

text \<open>\<open>[f(x) for x in xs]\<close> where \<open>f\<close> can raise.\<close>

fun map_result :: "('a \<Rightarrow> error + 'b) \<Rightarrow> 'a list \<Rightarrow> error + 'b list" where
  "map_result f [] = Inr []"
| "map_result f (x # xs) = rbind (f x) (\<lambda>y. rbind (map_result f xs) (\<lambda>ys. Inr (y # ys)))"

text \<open>
  \<open>min(xs, key=...)\<close>: the first element whose key is minimal; \<open>ValueError\<close> on an
  empty list.
\<close>

fun min_by_key :: "('a \<Rightarrow> int) \<Rightarrow> 'a \<Rightarrow> 'a list \<Rightarrow> 'a" where
  "min_by_key key best [] = best"
| "min_by_key key best (x # xs) = min_by_key key (if key x < key best then x else best) xs"

definition py_min :: "('a \<Rightarrow> int) \<Rightarrow> 'a list \<Rightarrow> error + 'a" where
  "py_min key xs = (case xs of [] \<Rightarrow> Inl ValueError | x # rest \<Rightarrow> Inr (min_by_key key x rest))"

text \<open>\<open>range(n)\<close> for a Python integer \<open>n\<close>: empty when \<open>n \<le> 0\<close>.\<close>

definition py_range :: "int \<Rightarrow> int list" where
  "py_range n = [0..n - 1]"

section \<open>The grid graph (\<open>TaxiWrapper/taxi_wrapper.py\<close>, class \<open>EnvGraph\<close>)\<close>

text \<open>A grid position \<open>[row, col]\<close>.\<close>

type_synonym cell = "int \<times> int"

record nx_graph =
  nodes :: "int list"
  edges :: "(int \<times> int) list"

record env_graph =
  rows :: int
  cols :: int
  graph :: nx_graph

text \<open>
  \<open>nx.shortest_path(G, source, target)\<close> belongs to the networkx library, not to the
  repository: the functions below take it as their first argument \<open>sp\<close>.
\<close>

type_synonym shortest_path = "nx_graph \<Rightarrow> int \<Rightarrow> int \<Rightarrow> error + int list"

definition node_to_cors :: "env_graph \<Rightarrow> int \<Rightarrow> error + cell" where
  "node_to_cors g node =
     (if cols g = 0 then Inl ZeroDivisionError else Inr (node div cols g, node mod cols g))"

definition cors_to_node :: "env_graph \<Rightarrow> cell \<Rightarrow> int" where
  "cors_to_node g rc = fst rc * cols g + snd rc"

text \<open>
  The constructor. \<open>desc\<close> is the map as rows of characters. The graph starts as
  \<open>nx.empty_graph(rows * cols)\<close>; the loop runs over its nodes and adds the south and east
  edges. An edge to a node that is not there yet would add the node while the node view is
  being iterated, which Python refuses with \<open>RuntimeError\<close> when the loop asks for the
  next node.
\<close>

definition desc_at :: "string list \<Rightarrow> int \<Rightarrow> int \<Rightarrow> error + char" where
  "desc_at desc i j = rbind (py_index desc i) (\<lambda>line. py_index line j)"

definition add_node_edges ::
  "string list \<Rightarrow> int \<Rightarrow> int \<Rightarrow> int \<Rightarrow> (int \<times> int) list \<Rightarrow> error + (int \<times> int) list" where
  "add_node_edges desc r c i es =
     (let row = i div c; col = i mod c in
      rbind (desc_at desc (row + 2) (col * 2 + 1)) (\<lambda>below.
      rbind (desc_at desc (row + 1) (col * 2 + 2)) (\<lambda>right.
        let south = (if below \<noteq> CHR ''-'' then [(i, (row + 1) * c + col)] else []);
            east = (if right = CHR '':'' then [(i, row * c + (col + 1))] else [])
        in if list_all (\<lambda>e. 0 \<le> snd e \<and> snd e < r * c) (south @ east)
           then Inr (es @ south @ east) else Inl RuntimeError)))"

definition env_graph_init :: "string list \<Rightarrow> error + env_graph" where
  "env_graph_init desc =
     (let r = int (length desc) - 2 in
      rbind (py_index desc 0) (\<lambda>first.
        let c = int (length first) div 2 in
        rbind (for_each (py_range (r * c)) (add_node_edges desc r c) []) (\<lambda>es.
          Inr \<lparr>rows = r, cols = c, graph = \<lparr>nodes = py_range (r * c), edges = es\<rparr>\<rparr>)))"

text \<open>The loop of \<open>get_path\<close> that turns consecutive node indices into actions.\<close>

fun path_actions :: "int \<Rightarrow> int list \<Rightarrow> int list" where
  "path_actions c (a # b # rest) =
     (let delta = b - a in
      (if delta = - 1 then 3 else if delta = 1 then 2 else if delta = - c then 1 else 0))
     # path_actions c (b # rest)"
| "path_actions c [a] = []"
| "path_actions c [] = []"

definition get_path :: "shortest_path \<Rightarrow> env_graph \<Rightarrow> cell \<Rightarrow> cell \<Rightarrow> error + (cell list \<times> int list)" where
  "get_path sp g origin target =
     (let node_origin = cors_to_node g origin; node_target = cors_to_node g target in
      if node_origin = node_target then Inr ([], [])
      else
        rbind (sp (graph g) node_origin node_target) (\<lambda>path.
        rbind (map_result (node_to_cors g) path) (\<lambda>cord_path.
          Inr (tl cord_path, path_actions (cols g) path))))"

definition path_cost :: "shortest_path \<Rightarrow> env_graph \<Rightarrow> cell \<Rightarrow> cell \<Rightarrow> error + int" where
  "path_cost sp g origin dest =
     rbind (get_path sp g origin dest) (\<lambda>p. Inr (int (length (snd p))))"

section \<open>The simulation state read by taxis and controller\<close>

text \<open>
  \<open>taxi_env.state\<close> is the list \<open>[taxis locations, fuels, passengers start locations,
  passengers destinations, passengers status]\<close>, read by index. \<open>action_index_dictionary\<close>
  is the environment's table from action names to action numbers.
\<close>

record taxi_env =
  taxis_locations :: "cell list"
  fuels :: "int list"
  passengers_start_location :: "cell list"
  passengers_destinations :: "cell list"
  passengers_status :: "int list"
  action_index_dictionary :: "string \<Rightarrow> int option"

text \<open>
  The messages of the decentralised protocol are dictionaries; each kind has its own keys.
  Every kind carries \<open>taxi_index\<close> and \<open>passenger_index\<close>; only an allocation bid
  carries \<open>pickup_cost\<close>.
\<close>

datatype message =
    AllocationBid int int int
  | HelpRequest int int
  | PathResponse int int "cell list" int int
  | TransferMessage int cell int int

fun msg_taxi_index :: "message \<Rightarrow> int" where
  "msg_taxi_index (AllocationBid t p c) = t"
| "msg_taxi_index (HelpRequest t p) = t"
| "msg_taxi_index (PathResponse t p path r f) = t"
| "msg_taxi_index (TransferMessage h tp t p) = t"

fun msg_passenger_index :: "message \<Rightarrow> int" where
  "msg_passenger_index (AllocationBid t p c) = p"
| "msg_passenger_index (HelpRequest t p) = p"
| "msg_passenger_index (PathResponse t p path r f) = p"
| "msg_passenger_index (TransferMessage h tp t p) = p"

fun msg_pickup_cost :: "message \<Rightarrow> error + int" where
  "msg_pickup_cost (AllocationBid t p c) = Inr c"
| "msg_pickup_cost m = Inl KeyError"

section \<open>A taxi (\<open>TaxiWrapper/taxi_wrapper.py\<close>, class \<open>Taxi\<close>)\<close>

record taxi =
  taxi_index :: int
  communication_channel :: "message list"
  actions_queue :: "int list"
  assigned_passengers :: "int list"

definition get_location :: "taxi_env \<Rightarrow> taxi \<Rightarrow> error + cell" where
  "get_location env t = py_index (taxis_locations env) (taxi_index t)"

definition get_fuel :: "taxi_env \<Rightarrow> taxi \<Rightarrow> error + int" where
  "get_fuel env t = py_index (fuels env) (taxi_index t)"

text \<open>
  \<open>origin\<close> is \<open>None\<close> or a cell. \<open>compute_shortest_path\<close> tests \<open>origin is not None\<close>
  and \<open>path_cost\<close> tests the truth value of \<open>origin\<close>; a two-element list is true, so both
  tests agree on every cell.
\<close>

definition compute_shortest_path ::
  "shortest_path \<Rightarrow> env_graph \<Rightarrow> taxi_env \<Rightarrow> taxi \<Rightarrow> cell \<Rightarrow> cell option
     \<Rightarrow> error + (cell list \<times> int list)" where
  "compute_shortest_path sp g env t dest origin =
     rbind (case origin of Some c \<Rightarrow> Inr c | None \<Rightarrow> py_index (taxis_locations env) (taxi_index t))
       (\<lambda>from. get_path sp g from dest)"

definition taxi_path_cost ::
  "shortest_path \<Rightarrow> env_graph \<Rightarrow> taxi_env \<Rightarrow> taxi \<Rightarrow> cell \<Rightarrow> cell option \<Rightarrow> error + int" where
  "taxi_path_cost sp g env t dest origin =
     rbind (case origin of Some c \<Rightarrow> Inr c | None \<Rightarrow> py_index (taxis_locations env) (taxi_index t))
       (\<lambda>from. rbind (get_path sp g from dest) (\<lambda>p. Inr (int (length (snd p)))))"

definition send_taxi_to_point ::
  "shortest_path \<Rightarrow> env_graph \<Rightarrow> taxi_env \<Rightarrow> taxi \<Rightarrow> cell \<Rightarrow> error + taxi" where
  "send_taxi_to_point sp g env t point =
     rbind (compute_shortest_path sp g env t point None) (\<lambda>p.
       Inr (t\<lparr>actions_queue := actions_queue t @ snd p\<rparr>))"

text \<open>
  \<open>passenger_index\<close> is \<open>None\<close> or an integer. The guard tests \<open>passenger_index is None\<close>;
  the choice of the passenger tests the truth value of \<open>passenger_index\<close>, which is false for
  \<open>None\<close> and for \<open>0\<close>.
\<close>

definition send_taxi_to_pickup ::
  "shortest_path \<Rightarrow> env_graph \<Rightarrow> taxi_env \<Rightarrow> taxi \<Rightarrow> int option \<Rightarrow> error + taxi" where
  "send_taxi_to_pickup sp g env t passenger_index =
     (if assigned_passengers t = [] \<and> passenger_index = None then Inr t
      else
        rbind (case passenger_index of
                 None \<Rightarrow> py_index (assigned_passengers t) 0
               | Some i \<Rightarrow> if i \<noteq> 0 then Inr i else py_index (assigned_passengers t) 0)
          (\<lambda>pickup_passenger.
        rbind (py_index (passengers_start_location env) pickup_passenger) (\<lambda>passenger_location.
        rbind (send_taxi_to_point sp g env t passenger_location) (\<lambda>t'.
        rbind (case action_index_dictionary env ''pickup'' of
                 None \<Rightarrow> Inl KeyError | Some a \<Rightarrow> Inr a) (\<lambda>pickup.
          Inr (t'\<lparr>actions_queue := actions_queue t' @ [pickup]\<rparr>))))))"

text \<open>
  \<open>decide_assignments\<close>. The loop state is \<open>(pickup_cost, assigned_taxi, passenger_index)\<close>:
  \<open>pickup_cost\<close> starts as \<open>np.inf\<close> (\<open>None\<close>), \<open>passenger_index\<close> is unbound (\<open>None\<close>)
  until the first message has been read.
\<close>

definition below :: "int \<Rightarrow> int option \<Rightarrow> bool" where
  "below x bound = (case bound of None \<Rightarrow> True | Some b \<Rightarrow> x < b)"

definition decide_step ::
  "message \<Rightarrow> int option \<times> int \<times> int option \<Rightarrow> error + (int option \<times> int \<times> int option)" where
  "decide_step m s =
     (case s of (pickup_cost, assigned_taxi, passenger_index) \<Rightarrow>
        rbind (msg_pickup_cost m) (\<lambda>c.
          if below c pickup_cost
          then Inr (Some c, msg_taxi_index m, Some (msg_passenger_index m))
          else Inr (pickup_cost, assigned_taxi, Some (msg_passenger_index m))))"

definition decide_assignments :: "taxi \<Rightarrow> error + taxi" where
  "decide_assignments t =
     rbind (for_each (communication_channel t) decide_step (None, - 1, None)) (\<lambda>s.
       case s of (pickup_cost, assigned_taxi, passenger_index) \<Rightarrow>
         if assigned_taxi = taxi_index t
         then (case passenger_index of
                 None \<Rightarrow> Inl UnboundLocalError
               | Some p \<Rightarrow>
                   Inr (t\<lparr>communication_channel := [],
                          assigned_passengers := assigned_passengers t @ [p]\<rparr>))
         else Inr (t\<lparr>communication_channel := []\<rparr>))"

section \<open>The controller (\<open>ControllerWrapper/controller_wrapper.py\<close>)\<close>

text \<open>
  The controller holds the list \<open>taxis\<close>, the environment and its own \<open>EnvGraph\<close>. Every
  taxi builds its \<open>EnvGraph\<close> from the same map, so one graph \<open>g\<close> stands for all of them.
\<close>

definition get_passenger_cors :: "taxi_env \<Rightarrow> int \<Rightarrow> error + cell" where
  "get_passenger_cors env passenger_index = py_index (passengers_start_location env) passenger_index"

definition get_destination_cors :: "taxi_env \<Rightarrow> int \<Rightarrow> error + cell" where
  "get_destination_cors env passenger_index = py_index (passengers_destinations env) passenger_index"

subsection \<open>\<open>find_transfer_point_h1\<close>\<close>

text \<open>
  One run of the loop over the candidate points: the pair appended to
  \<open>off_road_distances\<close>.
\<close>

definition off_road_entry ::
  "shortest_path \<Rightarrow> env_graph \<Rightarrow> taxi_env \<Rightarrow> taxi list \<Rightarrow> int \<Rightarrow> int \<Rightarrow> cell
     \<Rightarrow> error + (int \<times> cell)" where
  "off_road_entry sp g env ts from_taxi_index from_taxi_remaining_fuel point =
     rbind (py_index ts from_taxi_index) (\<lambda>from_taxi.
     rbind (compute_shortest_path sp g env from_taxi point None) (\<lambda>p.
     rbind (get_location env from_taxi) (\<lambda>loc.
       let path_cords = loc # fst p;
           path_actions = snd p;
           remaining_path = max 0 (int (length path_actions) - from_taxi_remaining_fuel)
       in if remaining_path > 0
          then rbind (py_index path_cords (min from_taxi_remaining_fuel (int (length path_actions))))
                 (\<lambda>c. Inr (remaining_path, c))
          else Inr (0, point))))"

definition find_transfer_point_h1 ::
  "shortest_path \<Rightarrow> env_graph \<Rightarrow> taxi_env \<Rightarrow> taxi list \<Rightarrow> int \<Rightarrow> int \<Rightarrow> int \<Rightarrow> error + cell" where
  "find_transfer_point_h1 sp g env ts from_taxi_index to_taxi_index passenger_index =
     rbind (py_index ts to_taxi_index) (\<lambda>to_taxi.
     rbind (get_destination_cors env passenger_index) (\<lambda>dest.
     rbind (compute_shortest_path sp g env to_taxi dest None) (\<lambda>p.
     rbind (get_location env to_taxi) (\<lambda>loc.
       let to_taxi_shortest_path = loc # fst p in
       rbind (py_index (fuels env) from_taxi_index) (\<lambda>fuel.
         let from_taxi_remaining_fuel = fuel - 1 in
         rbind (map_result (off_road_entry sp g env ts from_taxi_index from_taxi_remaining_fuel)
                  to_taxi_shortest_path) (\<lambda>off_road_distances.
         rbind (py_min fst off_road_distances) (\<lambda>best. Inr (snd best))))))))"

subsection \<open>\<open>find_transfer_point_h2\<close>\<close>

definition find_transfer_point_h2 ::
  "shortest_path \<Rightarrow> env_graph \<Rightarrow> taxi_env \<Rightarrow> taxi list \<Rightarrow> int \<Rightarrow> int \<Rightarrow> error + cell" where
  "find_transfer_point_h2 sp g env ts from_taxi_index passenger_index =
     rbind (py_index ts from_taxi_index) (\<lambda>from_taxi.
     rbind (get_destination_cors env passenger_index) (\<lambda>dest.
     rbind (compute_shortest_path sp g env from_taxi dest None) (\<lambda>p.
     rbind (get_location env from_taxi) (\<lambda>loc.
       let shortest_path = loc # fst p in
       rbind (get_fuel env from_taxi) (\<lambda>fuel.
         py_index shortest_path (max 0 (min (fuel - 1) (int (length shortest_path) - 1))))))))"

subsection \<open>\<open>find_optimal_transfer_point\<close>\<close>

text \<open>
  The body of the two nested loops for one \<open>transfer_point\<close>, up to \<open>dist_from_dest\<close>:
  \<open>None\<close> when the loop takes \<open>continue\<close>, otherwise the value of \<open>dist_from_dest\<close>.
\<close>

definition dist_from_dest ::
  "shortest_path \<Rightarrow> env_graph \<Rightarrow> taxi_env \<Rightarrow> taxi \<Rightarrow> taxi \<Rightarrow> cell \<Rightarrow> cell
     \<Rightarrow> error + int option" where
  "dist_from_dest sp g env from_taxi to_taxi passenger_destination transfer_point =
     rbind (taxi_path_cost sp g env from_taxi transfer_point None) (\<lambda>from_cost.
     rbind (get_fuel env from_taxi) (\<lambda>from_fuel.
       if from_cost > from_fuel - 1 then Inr None
       else
         rbind (taxi_path_cost sp g env to_taxi transfer_point None) (\<lambda>path_to_point_cost.
         rbind (get_fuel env to_taxi) (\<lambda>to_fuel.
           if path_to_point_cost > to_fuel - 1
           then rbind (taxi_path_cost sp g env from_taxi passenger_destination (Some transfer_point))
                  (\<lambda>d. Inr (Some d))
           else
             rbind (taxi_path_cost sp g env to_taxi passenger_destination (Some transfer_point))
               (\<lambda>rest.
             rbind (get_fuel env to_taxi) (\<lambda>to_fuel'.
               Inr (Some (max 0 (path_to_point_cost + rest - (to_fuel' - 1))))))))))"

text \<open>
  The loop state is \<open>(min_dist_from_dest, best_transfer_point)\<close>: \<open>np.inf\<close> and the empty
  list \<open>[]\<close> at the start, both modelled as \<open>None\<close>.
\<close>

definition optimal_step ::
  "shortest_path \<Rightarrow> env_graph \<Rightarrow> taxi_env \<Rightarrow> taxi \<Rightarrow> taxi \<Rightarrow> cell \<Rightarrow> cell
     \<Rightarrow> int option \<times> cell option \<Rightarrow> error + (int option \<times> cell option)" where
  "optimal_step sp g env from_taxi to_taxi passenger_destination transfer_point s =
     rbind (dist_from_dest sp g env from_taxi to_taxi passenger_destination transfer_point) (\<lambda>d.
       case d of
         None \<Rightarrow> Inr s
       | Some dist \<Rightarrow>
           if below dist (fst s) then Inr (Some dist, Some transfer_point) else Inr s)"

definition find_optimal_transfer_point ::
  "shortest_path \<Rightarrow> env_graph \<Rightarrow> taxi_env \<Rightarrow> taxi list \<Rightarrow> int \<Rightarrow> int \<Rightarrow> int
     \<Rightarrow> error + cell option" where
  "find_optimal_transfer_point sp g env ts from_taxi_index to_taxi_index passenger_index =
     rbind (py_index ts from_taxi_index) (\<lambda>from_taxi.
     rbind (py_index ts to_taxi_index) (\<lambda>to_taxi.
     rbind (get_destination_cors env passenger_index) (\<lambda>passenger_destination.
     rbind (for_each (py_range (rows g)) (\<lambda>row.
              for_each (py_range (cols g)) (\<lambda>col.
                optimal_step sp g env from_taxi to_taxi passenger_destination (row, col)))
              (None, None)) (\<lambda>s. Inr (snd s)))))"

subsection \<open>\<open>find_closest_taxi\<close>\<close>

text \<open>The loop state is \<open>(closest_taxi_distance, closest_taxi_index)\<close>.\<close>

definition closest_step ::
  "shortest_path \<Rightarrow> env_graph \<Rightarrow> taxi_env \<Rightarrow> cell \<Rightarrow> taxi \<Rightarrow> int option \<times> int
     \<Rightarrow> error + (int option \<times> int)" where
  "closest_step sp g env dest t s =
     rbind (get_location env t) (\<lambda>loc.
     rbind (path_cost sp g loc dest) (\<lambda>taxi_distance.
     rbind (get_fuel env t) (\<lambda>taxi_fuel.
       if below taxi_distance (fst s) \<and> taxi_distance < taxi_fuel
       then Inr (Some taxi_distance, taxi_index t) else Inr s)))"

definition find_closest_taxi ::
  "shortest_path \<Rightarrow> env_graph \<Rightarrow> taxi_env \<Rightarrow> taxi list \<Rightarrow> cell \<Rightarrow> error + int" where
  "find_closest_taxi sp g env ts dest =
     rbind (for_each ts (closest_step sp g env dest) (None, - 1)) (\<lambda>s. Inr (snd s))"

section \<open>The experiment (\<open>Collaboration_Experiment.py\<close>)\<close>

text \<open>The loop state of \<open>no_collaboration_case\<close> is \<open>(capable_taxis, min_dist_from_dest)\<close>.\<close>

definition no_collaboration_step ::
  "shortest_path \<Rightarrow> env_graph \<Rightarrow> taxi_env \<Rightarrow> cell \<Rightarrow> int \<Rightarrow> taxi \<Rightarrow> int list \<times> int
     \<Rightarrow> error + (int list \<times> int)" where
  "no_collaboration_step sp g env passenger_location path_to_destination_cost t s =
     rbind (taxi_path_cost sp g env t passenger_location None) (\<lambda>path_to_passenger_cost.
       let total_path_cost = path_to_passenger_cost + path_to_destination_cost in
       rbind (get_fuel env t) (\<lambda>taxi_fuel.
         let dist = max 0 (total_path_cost - (taxi_fuel - 1));
             min_dist = min (snd s) dist
         in if total_path_cost < taxi_fuel
            then Inr (fst s @ [taxi_index t], min_dist) else Inr (fst s, min_dist)))"

definition no_collaboration_case ::
  "shortest_path \<Rightarrow> env_graph \<Rightarrow> taxi_env \<Rightarrow> taxi list \<Rightarrow> int \<Rightarrow> error + (int list \<times> int)" where
  "no_collaboration_case sp g env ts passenger_index =
     rbind (py_index (passengers_start_location env) passenger_index) (\<lambda>passenger_location.
     rbind (py_index (passengers_destinations env) passenger_index) (\<lambda>passenger_destination.
     rbind (path_cost sp g passenger_location passenger_destination) (\<lambda>path_to_destination_cost.
       for_each ts (no_collaboration_step sp g env passenger_location path_to_destination_cost)
         ([], path_to_destination_cost))))"

section \<open>Notions used to state the properties\<close>

text \<open>
  The first element of a list whose key is minimal over the whole list; \<open>None\<close> for the
  empty list.
\<close>

definition first_minimum :: "('a \<Rightarrow> int) \<Rightarrow> 'a list \<Rightarrow> 'a option" where
  "first_minimum key xs = find (\<lambda>x. list_all (\<lambda>y. key x \<le> key y) xs) xs"

text \<open>The cells of the grid in the order of the two nested loops (row-major).\<close>

definition grid_cells :: "env_graph \<Rightarrow> cell list" where
  "grid_cells g = List.product (py_range (rows g)) (py_range (cols g))"

text \<open>A cell of the grid: its row and its column are in range.\<close>

definition in_grid :: "env_graph \<Rightarrow> cell \<Rightarrow> bool" where
  "in_grid g rc = (0 \<le> fst rc \<and> fst rc < rows g \<and> 0 \<le> snd rc \<and> snd rc < cols g)"

text \<open>
  A walk of the graph: a non-empty list of nodes, consecutive ones joined by an edge (the
  graph is undirected).
\<close>

fun is_walk :: "nx_graph \<Rightarrow> int list \<Rightarrow> bool" where
  "is_walk G (a # b # rest) =
     (((a, b) \<in> set (edges G) \<or> (b, a) \<in> set (edges G)) \<and> is_walk G (b # rest))"
| "is_walk G [a] = (a \<in> set (nodes G))"
| "is_walk G [] = False"


text \<open>The weaker promise that a returned path runs from the source to the target.\<close>

definition joins_endpoints :: "shortest_path \<Rightarrow> nx_graph \<Rightarrow> bool" where
  "joins_endpoints sp G = (\<forall>s t p. sp G s t = Inr p \<longrightarrow> p \<noteq> [] \<and> hd p = s \<and> last p = t)"

text \<open>
  The movement the four directional actions stand for: 0 is south (one row down), 1 north,
  2 east (one column right), 3 west. \<open>follow\<close> lists the cells visited by a sequence of
  actions, the start excluded.
\<close>

definition move :: "cell \<Rightarrow> int \<Rightarrow> cell" where
  "move rc a =
     (if a = 0 then (fst rc + 1, snd rc)
      else if a = 1 then (fst rc - 1, snd rc)
      else if a = 2 then (fst rc, snd rc + 1)
      else if a = 3 then (fst rc, snd rc - 1)
      else rc)"

fun follow :: "cell \<Rightarrow> int list \<Rightarrow> cell list" where
  "follow rc [] = []"
| "follow rc (a # as) = move rc a # follow (move rc a) as"

text \<open>The cost an allocation bid carries (0 for the other kinds, which carry none).\<close>

fun bid_cost :: "message \<Rightarrow> int" where
  "bid_cost (AllocationBid t p c) = c"
| "bid_cost m = 0"

text \<open>
  The score of a transfer point as the specification words it: as \<open>dist_from_dest\<close>, but
  with the sender's cost to the cell, not the receiver's, in the sum
  \<open>max(0, (sender_cost_to_cell + receiver_cost_from_cell_to_dest) - (receiver_fuel - 1))\<close>;
  and the point the specification's exhaustive search returns with that score.
\<close>

definition claimed_dist_from_dest ::
  "shortest_path \<Rightarrow> env_graph \<Rightarrow> taxi_env \<Rightarrow> taxi \<Rightarrow> taxi \<Rightarrow> cell \<Rightarrow> cell
     \<Rightarrow> error + int option" where
  "claimed_dist_from_dest sp g env from_taxi to_taxi passenger_destination transfer_point =
     rbind (taxi_path_cost sp g env from_taxi transfer_point None) (\<lambda>sender_cost.
     rbind (get_fuel env from_taxi) (\<lambda>sender_fuel.
       if sender_cost > sender_fuel - 1 then Inr None
       else
         rbind (taxi_path_cost sp g env to_taxi transfer_point None) (\<lambda>receiver_cost.
         rbind (get_fuel env to_taxi) (\<lambda>receiver_fuel.
           if receiver_cost > receiver_fuel - 1
           then rbind (taxi_path_cost sp g env from_taxi passenger_destination (Some transfer_point))
                  (\<lambda>d. Inr (Some d))
           else
             rbind (taxi_path_cost sp g env to_taxi passenger_destination (Some transfer_point))
               (\<lambda>rest. Inr (Some (max 0 (sender_cost + rest - (receiver_fuel - 1)))))))))"

definition claimed_optimal_transfer_point ::
  "shortest_path \<Rightarrow> env_graph \<Rightarrow> taxi_env \<Rightarrow> taxi list \<Rightarrow> int \<Rightarrow> int \<Rightarrow> int
     \<Rightarrow> error + cell option" where
  "claimed_optimal_transfer_point sp g env ts from_taxi_index to_taxi_index passenger_index =
     rbind (py_index ts from_taxi_index) (\<lambda>from_taxi.
     rbind (py_index ts to_taxi_index) (\<lambda>to_taxi.
     rbind (get_destination_cors env passenger_index) (\<lambda>passenger_destination.
     rbind (map_result
              (\<lambda>c. rbind (claimed_dist_from_dest sp g env from_taxi to_taxi passenger_destination c)
                     (\<lambda>d. Inr (c, d)))
              (grid_cells g)) (\<lambda>scored.
       Inr (map_option fst
              (first_minimum (\<lambda>cd. the (snd cd)) (filter (\<lambda>cd. snd cd \<noteq> None) scored)))))))"





text \<open>The library returns walks of the graph, from the source to the target.\<close>

definition returns_walks :: "shortest_path \<Rightarrow> nx_graph \<Rightarrow> bool" where
  "returns_walks sp G = (\<forall>s t p. sp G s t = Inr p \<longrightarrow> is_walk G p \<and> hd p = s \<and> last p = t)"

text \<open>
  Every edge joins a node to the node one row below it, or to the next node of the same
  row.
\<close>

definition adjacent_cells_only :: "env_graph \<Rightarrow> bool" where
  "adjacent_cells_only g =
     (\<forall>e \<in> set (edges (graph g)).
        snd e = fst e + cols g \<or> (snd e = fst e + 1 \<and> fst e mod cols g \<noteq> cols g - 1))"

section \<open>Concrete maps and states\<close>

text \<open>
  On a graph whose nodes lie on one line, \<open>0 \<midarrow> 1 \<midarrow> \<dots> \<midarrow> n - 1\<close>, the shortest path
  between two nodes is unique: the nodes from the one to the other. This is the value of
  \<open>nx.shortest_path\<close> on the one-row and one-column maps below.
\<close>

definition path_graph_shortest_path :: shortest_path where
  "path_graph_shortest_path G s t =
     (if s \<in> set (nodes G) \<and> t \<in> set (nodes G)
      then let p = (if s \<le> t then [s..t] else rev [t..s])
           in if is_walk G p then Inr p else Inl NetworkXNoPath
      else Inl NodeNotFound)"

text \<open>A map of one row and three columns, and the graph the constructor builds from it.\<close>

definition corridor_map :: "string list" where
  "corridor_map = [''+-----+'', ''| : : |'', ''+-----+'']"

definition corridor :: env_graph where
  "corridor = \<lparr>rows = 1, cols = 3, graph = \<lparr>nodes = [0, 1, 2], edges = [(0, 1), (1, 2)]\<rparr>\<rparr>"

text \<open>A map of two rows and one column.\<close>

definition column_map :: "string list" where
  "column_map = [''+-+'', ''| |'', ''| |'', ''+-+'']"

definition column :: env_graph where
  "column = \<lparr>rows = 2, cols = 1, graph = \<lparr>nodes = [0, 1], edges = [(0, 1)]\<rparr>\<rparr>"

definition actions_table :: "string \<Rightarrow> int option" where
  "actions_table name =
     (if name = ''south'' then Some 0 else if name = ''north'' then Some 1
      else if name = ''east'' then Some 2 else if name = ''west'' then Some 3
      else if name = ''pickup'' then Some 4 else if name = ''dropoff0'' then Some 5
      else if name = ''dropoff1'' then Some 6 else None)"

text \<open>
  Two taxis on the corridor: taxi 0 at \<open>[0, 0]\<close>, taxi 1 at \<open>[0, 2]\<close>; passenger 0 waits at
  \<open>[0, 1]\<close> and goes to \<open>[0, 2]\<close>, passenger 1 waits at \<open>[0, 2]\<close> and goes to \<open>[0, 0]\<close>.
  The fuels are the arguments.
\<close>

definition corridor_env :: "int \<Rightarrow> int \<Rightarrow> taxi_env" where
  "corridor_env fuel0 fuel1 =
     \<lparr>taxis_locations = [(0, 0), (0, 2)], fuels = [fuel0, fuel1],
      passengers_start_location = [(0, 1), (0, 2)], passengers_destinations = [(0, 2), (0, 0)],
      passengers_status = [2, 2], action_index_dictionary = actions_table\<rparr>"

definition new_taxi :: "int \<Rightarrow> int list \<Rightarrow> taxi" where
  "new_taxi i assigned =
     \<lparr>taxi_index = i, communication_channel = [], actions_queue = [],
      assigned_passengers = assigned\<rparr>"

definition two_taxis :: "taxi list" where
  "two_taxis = [new_taxi 0 [], new_taxi 1 []]"

section \<open>Lemmas about the Python constructs\<close>

lemma rbind_Inr [simp]: "rbind (Inr x) f = f x"
  by (simp add: rbind_def)

lemma rbind_Inl [simp]: "rbind (Inl e) f = Inl e"
  by (simp add: rbind_def)

lemma for_each_pure:
  "(\<And>x s. x \<in> set xs \<Longrightarrow> body x s = Inr (h x s)) \<Longrightarrow> for_each xs body s = Inr (fold h xs s)"
  by (induction xs arbitrary: s) simp_all

lemma for_each_append:
  "for_each (xs @ ys) body s = rbind (for_each xs body s) (for_each ys body)"
  by (induction xs arbitrary: s) (simp_all add: rbind_def split: sum.splits)

lemma for_each_map: "for_each (map f xs) body s = for_each xs (\<lambda>x. body (f x)) s"
  by (induction xs arbitrary: s) (simp_all add: rbind_def split: sum.splits)

lemma for_each_nested:
  "for_each xs (\<lambda>x. for_each ys (\<lambda>y. body (x, y))) s = for_each (List.product xs ys) body s"
  by (induction xs arbitrary: s)
    (simp_all add: for_each_append for_each_map rbind_def split: sum.splits)

lemma map_result_pure:
  "(\<And>x. x \<in> set xs \<Longrightarrow> f x = Inr (h x)) \<Longrightarrow> map_result f xs = Inr (map h xs)"
  by (induction xs) simp_all

lemma fold_skip:
  "fold (\<lambda>y s. if P y then step y s else s) ys s = fold step (filter P ys) s"
  by (induction ys arbitrary: s) simp_all

subsection \<open>Loops that keep the first minimum\<close>

lemma find_cong_set: "(\<And>x. x \<in> set xs \<Longrightarrow> P x = Q x) \<Longrightarrow> find P xs = find Q xs"
  by (induction xs) auto

lemma find_skip: "\<not> P b \<Longrightarrow> find P (b # xs) = find P xs"
  by simp

lemma find_hit: "P b \<Longrightarrow> find P (b # xs) = Some b"
  by simp

lemma first_minimum_Nil [simp]: "first_minimum key [] = None"
  by (simp add: first_minimum_def)

lemma first_minimum_Cons_less:
  assumes "key x < key b"
  shows "first_minimum key (b # x # xs) = first_minimum key (x # xs)"
proof -
  let ?P = "\<lambda>z. list_all (\<lambda>y. key z \<le> key y) (b # x # xs)"
  let ?Q = "\<lambda>z. list_all (\<lambda>y. key z \<le> key y) (x # xs)"
  have nb: "\<not> ?P b" using assms by simp
  have "find ?P (x # xs) = find ?Q (x # xs)"
    using assms by (intro find_cong_set) (auto simp: list_all_iff)
  moreover have "find ?P (b # x # xs) = find ?P (x # xs)"
    by (rule find_skip [of ?P, OF nb])
  ultimately show ?thesis unfolding first_minimum_def by (rule trans [rotated])
qed

lemma first_minimum_Cons_keep:
  assumes "\<not> key x < key b"
  shows "first_minimum key (b # x # xs) = first_minimum key (b # xs)"
proof -
  let ?P = "\<lambda>z. list_all (\<lambda>y. key z \<le> key y) (b # x # xs)"
  let ?Q = "\<lambda>z. list_all (\<lambda>y. key z \<le> key y) (b # xs)"
  have pq: "?P z = ?Q z" if "z = b \<or> z \<in> set xs" for z
    using that assms by (auto simp: list_all_iff)
  show ?thesis
  proof (cases "?Q b")
    case True
    then have "?P b" using pq by blast
    then have "find ?P (b # x # xs) = Some b" by (rule find_hit [of ?P])
    moreover have "find ?Q (b # xs) = Some b" using True by (rule find_hit [of ?Q])
    ultimately show ?thesis unfolding first_minimum_def by (rule trans [OF _ sym])
  next
    case False
    then have npb: "\<not> ?P b" using pq by blast
    have npx: "\<not> ?P x" using False assms by (auto simp: list_all_iff)
    have "find ?P (b # x # xs) = find ?P (x # xs)" by (rule find_skip [of ?P, OF npb])
    also have "\<dots> = find ?P xs" by (rule find_skip [of ?P, OF npx])
    also have "\<dots> = find ?Q xs" using pq by (intro find_cong_set) blast
    also have "\<dots> = find ?Q (b # xs)" by (rule find_skip [of ?Q, OF False, symmetric])
    finally show ?thesis unfolding first_minimum_def .
  qed
qed

lemma first_minimum_min_by_key: "first_minimum key (b # xs) = Some (min_by_key key b xs)"
proof (induction xs arbitrary: b)
  case Nil
  then show ?case by (simp add: first_minimum_def)
next
  case (Cons x xs)
  then show ?case
    by (simp add: first_minimum_Cons_less first_minimum_Cons_keep)
qed


lemma first_minimum_None_iff: "first_minimum key xs = None \<longleftrightarrow> xs = []"
  by (cases xs) (simp_all add: first_minimum_min_by_key)

lemma fold_strict_min_from:
  "fold (\<lambda>y s. if below (key y) (fst s) then (Some (key y), val y) else s) ys (Some (key b), val b)
     = (Some (key (min_by_key key b ys)), val (min_by_key key b ys))"
  by (induction ys arbitrary: b) (simp_all add: below_def)

lemma fold_strict_min:
  "fold (\<lambda>y s. if below (key y) (fst s) then (Some (key y), val y) else s) ys (None, v0)
     = (case first_minimum key ys of None \<Rightarrow> (None, v0) | Some m \<Rightarrow> (Some (key m), val m))"
proof (cases ys)
  case Nil
  then show ?thesis by simp
next
  case (Cons b rest)
  have "fold (\<lambda>y s. if below (key y) (fst s) then (Some (key y), val y) else s) ys (None, v0)
      = fold (\<lambda>y s. if below (key y) (fst s) then (Some (key y), val y) else s) rest
          (Some (key b), val b)"
    using Cons by (simp add: below_def)
  then show ?thesis
    using Cons by (simp add: fold_strict_min_from first_minimum_min_by_key)
qed

lemma py_min_first_minimum: "xs \<noteq> [] \<Longrightarrow> py_min key xs = Inr (the (first_minimum key xs))"
  by (cases xs) (simp_all add: py_min_def first_minimum_min_by_key)

section \<open>Taxi path queries\<close>

lemma taxi_path_cost_here:
  "taxi_path_cost sp g env t dest None = rbind (get_location env t) (\<lambda>l. path_cost sp g l dest)"
  by (simp add: taxi_path_cost_def get_location_def path_cost_def)

lemma taxi_path_cost_from: "taxi_path_cost sp g env t dest (Some c) = path_cost sp g c dest"
  by (simp add: taxi_path_cost_def path_cost_def)

lemma compute_shortest_path_here:
  "compute_shortest_path sp g env t dest None = rbind (get_location env t) (\<lambda>l. get_path sp g l dest)"
  by (simp add: compute_shortest_path_def get_location_def)

section \<open>Allocation by bids: \<open>decide_assignments\<close>\<close>

lemma decide_loop:
  assumes "\<And>m. m \<in> set ms \<Longrightarrow> \<exists>s c. m = AllocationBid s p c"
  shows "for_each ms decide_step (c0, a0, p0) =
     Inr (fst (fold (\<lambda>m s. if below (bid_cost m) (fst s) then (Some (bid_cost m), msg_taxi_index m) else s) ms (c0, a0)),
          snd (fold (\<lambda>m s. if below (bid_cost m) (fst s) then (Some (bid_cost m), msg_taxi_index m) else s) ms (c0, a0)),
          if ms = [] then p0 else Some p)"
  using assms
proof (induction ms arbitrary: c0 a0 p0)
  case Nil
  then show ?case by simp
next
  case (Cons m ms)
  from Cons.prems [of m] obtain s c where m: "m = AllocationBid s p c" by auto
  have rest: "\<And>m'. m' \<in> set ms \<Longrightarrow> \<exists>s c. m' = AllocationBid s p c"
    using Cons.prems by simp
  have step: "decide_step m (c0, a0, p0) =
      Inr (if below c c0 then (Some c, s, Some p) else (c0, a0, Some p))"
    by (simp add: m decide_step_def)
  show ?case
    by (cases "below c c0") (simp_all add: step Cons.IH [OF rest], simp_all add: m)
qed

text \<open>
  C9. When every message in the channel is an allocation bid for passenger \<open>p\<close>,
  \<open>decide_assignments\<close> appends \<open>p\<close> to the taxi's assigned passengers exactly when the
  first message whose pickup cost is minimal was sent by this taxi, and the channel is empty
  afterwards in either case. Taxi indices are positions in the list of taxis, hence not
  negative.
\<close>

theorem decide_assignments_first_minimal_bid:
  assumes "\<forall>m \<in> set (communication_channel t). \<exists>s c. m = AllocationBid s p c"
    and "0 \<le> taxi_index t"
  shows "decide_assignments t =
     Inr (t\<lparr>communication_channel := [],
            assigned_passengers :=
              (if map_option msg_taxi_index (first_minimum bid_cost (communication_channel t))
                    = Some (taxi_index t)
               then assigned_passengers t @ [p] else assigned_passengers t)\<rparr>)"
proof -
  let ?ms = "communication_channel t"
  have loop: "for_each ?ms decide_step (None, - 1, None) =
     Inr (fst (fold (\<lambda>m s. if below (bid_cost m) (fst s) then (Some (bid_cost m), msg_taxi_index m) else s) ?ms (None, - 1)),
          snd (fold (\<lambda>m s. if below (bid_cost m) (fst s) then (Some (bid_cost m), msg_taxi_index m) else s) ?ms (None, - 1)),
          if ?ms = [] then None else Some p)"
    using assms(1) by (intro decide_loop) blast
  show ?thesis
  proof (cases "first_minimum bid_cost ?ms")
    case None
    then have "?ms = []" by (simp add: first_minimum_None_iff)
    then show ?thesis using assms(2) by (simp add: decide_assignments_def)
  next
    case (Some m)
    then have ne: "?ms \<noteq> []" by auto
    show ?thesis
      using Some ne by (simp add: decide_assignments_def loop fold_strict_min)
  qed
qed

theorem decide_assignments_first_minimal_bid_witness:
  "decide_assignments
     ((new_taxi 1 [4])\<lparr>communication_channel :=
        [AllocationBid 0 7 3, AllocationBid 1 7 2, AllocationBid 2 7 2]\<rparr>)
   = Inr ((new_taxi 1 [4, 7])\<lparr>communication_channel := []\<rparr>)
   \<and> decide_assignments
     ((new_taxi 2 [4])\<lparr>communication_channel :=
        [AllocationBid 0 7 3, AllocationBid 1 7 2, AllocationBid 2 7 2]\<rparr>)
   = Inr ((new_taxi 2 [4])\<lparr>communication_channel := []\<rparr>)"
  using decide_assignments_first_minimal_bid
    [of "(new_taxi 1 [4])\<lparr>communication_channel :=
        [AllocationBid 0 7 3, AllocationBid 1 7 2, AllocationBid 2 7 2]\<rparr>" 7]
    decide_assignments_first_minimal_bid
    [of "(new_taxi 2 [4])\<lparr>communication_channel :=
        [AllocationBid 0 7 3, AllocationBid 1 7 2, AllocationBid 2 7 2]\<rparr>" 7]
  by (simp add: new_taxi_def first_minimum_def)

section \<open>Allocation by the controller: \<open>find_closest_taxi\<close>\<close>

text \<open>
  C7. When the location, the distance to the point and the fuel of every taxi are read
  without an exception, \<open>find_closest_taxi\<close> returns the index of the first taxi whose
  distance is minimal among the taxis with \<open>distance < fuel\<close>, and \<open>-1\<close> when no taxi has
  \<open>distance < fuel\<close>.
\<close>

theorem find_closest_taxi_first_minimal_capable:
  assumes "\<forall>t \<in> set ts. get_location env t = Inr (loc t) \<and>
             path_cost sp g (loc t) dest = Inr (dist t) \<and> get_fuel env t = Inr (fuel t)"
  shows "find_closest_taxi sp g env ts dest =
     Inr (case first_minimum dist (filter (\<lambda>t. dist t < fuel t) ts) of
            None \<Rightarrow> - 1 | Some t \<Rightarrow> taxi_index t)"
proof -
  let ?step = "\<lambda>t s. if below (dist t) (fst s) then (Some (dist t), taxi_index t) else s"
  have body: "closest_step sp g env dest t s = Inr (if dist t < fuel t then ?step t s else s)"
    if "t \<in> set ts" for t s
    using assms that by (simp add: closest_step_def)
  have "for_each ts (closest_step sp g env dest) (None, - 1)
      = Inr (fold (\<lambda>t s. if dist t < fuel t then ?step t s else s) ts (None, - 1))"
    by (rule for_each_pure) (rule body)
  also have "\<dots> = Inr (fold ?step (filter (\<lambda>t. dist t < fuel t) ts) (None, - 1))"
    by (simp only: fold_skip)
  finally show ?thesis
    by (simp add: find_closest_taxi_def fold_strict_min split: option.splits)
qed

theorem find_closest_taxi_first_minimal_capable_witness:
  "find_closest_taxi path_graph_shortest_path corridor (corridor_env 3 2) two_taxis (0, 1) = Inr 0
   \<and> find_closest_taxi path_graph_shortest_path corridor (corridor_env 1 1) two_taxis (0, 1) = Inr (- 1)"
proof -
  let ?loc = "\<lambda>t. if taxi_index t = 0 then (0, 0) else (0, 2 :: int)"
  have pc: "path_cost path_graph_shortest_path corridor (0, 0) (0, 1) = Inr 1"
    "path_cost path_graph_shortest_path corridor (0, 2) (0, 1) = Inr 1"
    by code_simp+
  have a: "find_closest_taxi path_graph_shortest_path corridor (corridor_env 3 2) two_taxis (0, 1) = Inr 0"
    using find_closest_taxi_first_minimal_capable
      [of two_taxis "corridor_env 3 2" ?loc path_graph_shortest_path corridor "(0, 1)" "\<lambda>t. 1"
        "\<lambda>t. if taxi_index t = 0 then 3 else 2"]
    by (simp add: pc two_taxis_def new_taxi_def corridor_env_def get_location_def get_fuel_def
        py_index_def first_minimum_def)
  have b: "find_closest_taxi path_graph_shortest_path corridor (corridor_env 1 1) two_taxis (0, 1) = Inr (- 1)"
    using find_closest_taxi_first_minimal_capable
      [of two_taxis "corridor_env 1 1" ?loc path_graph_shortest_path corridor "(0, 1)" "\<lambda>t. 1"
        "\<lambda>t. 1"]
    by (simp add: pc two_taxis_def new_taxi_def corridor_env_def get_location_def get_fuel_def
        py_index_def first_minimum_def)
  show ?thesis using a b by simp
qed

section \<open>Feasibility without collaboration: \<open>no_collaboration_case\<close>\<close>

lemma no_collaboration_loop:
  assumes "\<And>t. t \<in> set ts \<Longrightarrow> get_location env t = Inr (loc t) \<and>
             path_cost sp g (loc t) ploc = Inr (to_passenger t) \<and> get_fuel env t = Inr (fuel t)"
  shows "for_each ts (no_collaboration_step sp g env ploc direct) (cap, m) =
     Inr (cap @ map taxi_index (filter (\<lambda>t. to_passenger t + direct < fuel t) ts),
          fold min (map (\<lambda>t. max 0 (to_passenger t + direct - (fuel t - 1))) ts) m)"
  using assms
proof (induction ts arbitrary: cap m)
  case Nil
  then show ?case by simp
next
  case (Cons t ts)
  have step: "no_collaboration_step sp g env ploc direct t (cap, m) =
      Inr (if to_passenger t + direct < fuel t then cap @ [taxi_index t] else cap,
           min m (max 0 (to_passenger t + direct - (fuel t - 1))))"
    using Cons.prems [of t]
    by (simp add: no_collaboration_step_def taxi_path_cost_here Let_def)
  have rest: "\<And>t'. t' \<in> set ts \<Longrightarrow> get_location env t' = Inr (loc t') \<and>
             path_cost sp g (loc t') ploc = Inr (to_passenger t') \<and> get_fuel env t' = Inr (fuel t')"
    using Cons.prems by simp
  show ?case
    by (simp add: step Cons.IH [OF rest] min.commute)
qed

text \<open>
  C6. When the passenger's cells, the direct cost from her location to her destination, and
  the location, cost to the passenger and fuel of every taxi are read without an exception,
  \<open>no_collaboration_case\<close> returns the indices of the taxis with \<open>total cost < fuel\<close>, in
  the order of the taxis, and the least of the direct cost and of the shortfalls
  \<open>max(0, total cost - (fuel - 1))\<close> of all taxis.
\<close>

theorem no_collaboration_case_capable_and_shortfall:
  assumes "py_index (passengers_start_location env) passenger_index = Inr ploc"
    and "py_index (passengers_destinations env) passenger_index = Inr pdest"
    and "path_cost sp g ploc pdest = Inr direct"
    and "\<forall>t \<in> set ts. get_location env t = Inr (loc t) \<and>
             path_cost sp g (loc t) ploc = Inr (to_passenger t) \<and> get_fuel env t = Inr (fuel t)"
  shows "no_collaboration_case sp g env ts passenger_index =
     Inr (map taxi_index (filter (\<lambda>t. to_passenger t + direct < fuel t) ts),
          Min (insert direct ((\<lambda>t. max 0 (to_passenger t + direct - (fuel t - 1))) ` set ts)))"
proof -
  let ?short = "\<lambda>t. max 0 (to_passenger t + direct - (fuel t - 1))"
  have "fold min (map ?short ts) direct = Min (set (direct # map ?short ts))"
    by (simp only: Min.set_eq_fold)
  then have m: "fold min (map ?short ts) direct = Min (insert direct (?short ` set ts))"
    by simp
  have "for_each ts (no_collaboration_step sp g env ploc direct) ([], direct) =
     Inr ([] @ map taxi_index (filter (\<lambda>t. to_passenger t + direct < fuel t) ts),
          fold min (map ?short ts) direct)"
    using assms(4) by (intro no_collaboration_loop) blast
  then show ?thesis
    using assms(1-3) m by (simp add: no_collaboration_case_def)
qed

theorem no_collaboration_case_capable_and_shortfall_witness:
  "no_collaboration_case path_graph_shortest_path corridor (corridor_env 3 2) two_taxis 0 = Inr ([0], 0)
   \<and> no_collaboration_case path_graph_shortest_path corridor (corridor_env 1 1) two_taxis 1 = Inr ([], 2)"
proof -
  let ?loc = "\<lambda>t. if taxi_index t = 0 then (0, 0) else (0, 2 :: int)"
  have pc: "path_cost path_graph_shortest_path corridor (0, 0) (0, 1) = Inr 1"
    "path_cost path_graph_shortest_path corridor (0, 2) (0, 1) = Inr 1"
    "path_cost path_graph_shortest_path corridor (0, 1) (0, 2) = Inr 1"
    "path_cost path_graph_shortest_path corridor (0, 0) (0, 2) = Inr 2"
    "path_cost path_graph_shortest_path corridor (0, 2) (0, 2) = Inr 0"
    "path_cost path_graph_shortest_path corridor (0, 2) (0, 0) = Inr 2"
    by code_simp+
  have a: "no_collaboration_case path_graph_shortest_path corridor (corridor_env 3 2) two_taxis 0 = Inr ([0], 0)"
    using no_collaboration_case_capable_and_shortfall
      [of "corridor_env 3 2" 0 "(0, 1)" "(0, 2)" path_graph_shortest_path corridor 1 two_taxis
        ?loc "\<lambda>t. 1" "\<lambda>t. if taxi_index t = 0 then 3 else 2"]
    by (simp add: pc two_taxis_def new_taxi_def corridor_env_def get_location_def get_fuel_def
        py_index_def)
  have b: "no_collaboration_case path_graph_shortest_path corridor (corridor_env 1 1) two_taxis 1 = Inr ([], 2)"
    using no_collaboration_case_capable_and_shortfall
      [of "corridor_env 1 1" 1 "(0, 2)" "(0, 0)" path_graph_shortest_path corridor 2 two_taxis
        ?loc "\<lambda>t. if taxi_index t = 0 then 2 else 0" "\<lambda>t. 1"]
    by (simp add: pc two_taxis_def new_taxi_def corridor_env_def get_location_def get_fuel_def
        py_index_def)
  show ?thesis using a b by simp
qed

section \<open>Paths on the grid: \<open>get_path\<close> and \<open>path_cost\<close>\<close>

lemma corridor_init: "env_graph_init corridor_map = Inr corridor"
  by code_simp

lemma column_init: "env_graph_init column_map = Inr column"
  by code_simp



lemma path_cost_is_length:
  "get_path sp g origin dest = Inr (cells, actions) \<Longrightarrow>
     path_cost sp g origin dest = Inr (int (length actions))"
  by (simp add: path_cost_def)

text \<open>
  C5. On the map of two rows and one column, the shortest path from \<open>[0, 0]\<close> to the cell
  below it, \<open>[1, 0]\<close>, is the node list \<open>[0, 1]\<close>. The step has \<open>delta = 1\<close>, which
  \<open>get_path\<close> reads as east (action 2) before it compares with \<open>cols\<close>; following action 2
  from \<open>[0, 0]\<close> leads to \<open>[0, 1]\<close>, not to the returned cell \<open>[1, 0]\<close>.
\<close>

theorem get_path_single_column_south_is_east:
  "get_path path_graph_shortest_path column (0, 0) (1, 0) = Inr ([(1, 0)], [2])
   \<and> follow (0, 0) [2] = [(0, 1)]
   \<and> get_path path_graph_shortest_path column (1, 0) (0, 0) = Inr ([(0, 0)], [3])
   \<and> follow (1, 0) [3] = [(1, - 1)]"
  by code_simp

section \<open>Queueing a pickup: \<open>send_taxi_to_pickup\<close>\<close>

text \<open>
  C8. With \<open>passenger_index = 0\<close> the truth test in the choice of the passenger fails, and
  the head of the assignment list is taken instead: a taxi assigned to passenger 1 and asked
  for passenger 0 queues the path to passenger 1 (two steps east, then pickup), and a taxi
  with no assignment raises \<open>IndexError\<close>. Asked for passenger 1, the same taxi queues the
  path to passenger 1.
\<close>

theorem send_taxi_to_pickup_index_zero:
  "send_taxi_to_pickup path_graph_shortest_path corridor (corridor_env 3 2) (new_taxi 0 [1]) (Some 0)
     = Inr ((new_taxi 0 [1])\<lparr>actions_queue := [2, 2, 4]\<rparr>)
   \<and> send_taxi_to_pickup path_graph_shortest_path corridor (corridor_env 3 2) (new_taxi 0 []) (Some 0)
     = Inl IndexError
   \<and> send_taxi_to_pickup path_graph_shortest_path corridor (corridor_env 3 2) (new_taxi 0 []) (Some 1)
     = Inr ((new_taxi 0 [])\<lparr>actions_queue := [2, 2, 4]\<rparr>)
   \<and> py_index (passengers_start_location (corridor_env 3 2)) 0 = Inr (0, 1)
   \<and> get_path path_graph_shortest_path corridor (0, 0) (0, 1) = Inr ([(0, 1)], [2])"
  by code_simp

section \<open>The first heuristic: \<open>find_transfer_point_h1\<close>\<close>

text \<open>
  C3. A sender without fuel: taxi 0 at \<open>[0, 0]\<close> has fuel 0, taxi 1 stands on the
  passenger's destination \<open>[0, 2]\<close>. The only candidate is \<open>[0, 2]\<close>, two steps from the
  sender; its shortfall is 3, and the index \<open>min(-1, 2) = -1\<close> into the sender's path reads
  its last cell. The heuristic returns \<open>[0, 2]\<close>, a cell the sender cannot reach, while the
  second heuristic, which clamps the index at 0, returns the sender's own cell.
\<close>

theorem find_transfer_point_h1_no_fuel:
  "find_transfer_point_h1 path_graph_shortest_path corridor (corridor_env 0 2) two_taxis 0 1 0
     = Inr (0, 2)
   \<and> off_road_entry path_graph_shortest_path corridor (corridor_env 0 2) two_taxis 0 (- 1) (0, 2)
     = Inr (3, (0, 2))
   \<and> path_cost path_graph_shortest_path corridor (0, 0) (0, 2) = Inr 2
   \<and> find_transfer_point_h2 path_graph_shortest_path corridor (corridor_env 0 2) two_taxis 0 0
     = Inr (0, 0)"
  by code_simp

section \<open>The shape of a returned path\<close>

lemma rbind_eq_Inr_iff: "rbind m f = Inr y \<longleftrightarrow> (\<exists>x. m = Inr x \<and> f x = Inr y)"
  by (cases m) simp_all

lemma map_result_length: "map_result f xs = Inr ys \<Longrightarrow> length ys = length xs"
  by (induction xs arbitrary: ys) (auto simp: rbind_eq_Inr_iff)

lemma map_result_node_to_cors:
  "map_result (node_to_cors g) p = Inr cs \<Longrightarrow> p \<noteq> [] \<Longrightarrow>
     cols g \<noteq> 0 \<and> cs = map (\<lambda>n. (n div cols g, n mod cols g)) p"
proof (induction p arbitrary: cs)
  case Nil
  then show ?case by simp
next
  case (Cons n p)
  then show ?case
    by (cases "p = []") (auto simp: rbind_eq_Inr_iff node_to_cors_def split: if_splits)
qed

lemma length_path_actions: "length (path_actions c p) = length p - 1"
  by (induction c p rule: path_actions.induct) (simp_all add: Let_def)

text \<open>
  A successful \<open>get_path\<close> between different nodes: the node path of the library, its cells
  without the first, and its actions.
\<close>

lemma get_path_Inr_cases:
  assumes "get_path sp g origin target = Inr (cells, actions)"
  shows "(cors_to_node g origin = cors_to_node g target \<and> cells = [] \<and> actions = []) \<or>
     (cors_to_node g origin \<noteq> cors_to_node g target \<and>
      (\<exists>p. sp (graph g) (cors_to_node g origin) (cors_to_node g target) = Inr p \<and>
           (p \<noteq> [] \<longrightarrow> cols g \<noteq> 0) \<and>
           cells = tl (map (\<lambda>n. (n div cols g, n mod cols g)) p) \<and>
           actions = path_actions (cols g) p))"
proof (cases "cors_to_node g origin = cors_to_node g target")
  case True
  then show ?thesis using assms by (simp add: get_path_def)
next
  case False
  then obtain p cs where p: "sp (graph g) (cors_to_node g origin) (cors_to_node g target) = Inr p"
    and cs: "map_result (node_to_cors g) p = Inr cs"
    and res: "cells = tl cs" "actions = path_actions (cols g) p"
    using assms by (auto simp: get_path_def Let_def rbind_eq_Inr_iff)
  have "cells = tl (map (\<lambda>n. (n div cols g, n mod cols g)) p) \<and> (p \<noteq> [] \<longrightarrow> cols g \<noteq> 0)"
  proof (cases "p = []")
    case True
    then show ?thesis using cs res by simp
  next
    case False
    then show ?thesis using map_result_node_to_cors [OF cs] res by simp
  qed
  then show ?thesis using False p res by blast
qed

lemma get_path_lengths:
  assumes "get_path sp g origin target = Inr (cells, actions)"
  shows "length cells = length actions"
  using get_path_Inr_cases [OF assms] by (auto simp: length_path_actions)

lemma in_grid_node_roundtrip:
  assumes "in_grid g rc"
  shows "(cors_to_node g rc div cols g, cors_to_node g rc mod cols g) = rc"
proof -
  have c: "0 \<le> snd rc" "snd rc < cols g" using assms by (simp_all add: in_grid_def)
  then have "(fst rc * cols g + snd rc) div cols g = fst rc"
    by (simp add: div_pos_pos_trivial)
  moreover have "(fst rc * cols g + snd rc) mod cols g = snd rc"
    using c by simp
  ultimately show ?thesis by (simp add: cors_to_node_def)
qed

lemma in_grid_same_node:
  assumes "in_grid g a" and "in_grid g b" and "cors_to_node g a = cors_to_node g b"
  shows "a = b"
proof -
  have "a = (cors_to_node g a div cols g, cors_to_node g a mod cols g)"
    by (rule in_grid_node_roundtrip [OF assms(1), symmetric])
  also have "\<dots> = (cors_to_node g b div cols g, cors_to_node g b mod cols g)"
    by (simp only: assms(3))
  also have "\<dots> = b" by (rule in_grid_node_roundtrip [OF assms(2)])
  finally show ?thesis .
qed

lemma get_path_last_cell:
  assumes path: "get_path sp g origin target = Inr (cells, actions)"
    and ends: "joins_endpoints sp (graph g)"
    and grid: "in_grid g origin" "in_grid g target"
  shows "last (origin # cells) = target"
  using get_path_Inr_cases [OF path]
proof (elim disjE conjE exE)
  assume "cors_to_node g origin = cors_to_node g target" "cells = []"
  then show ?thesis using in_grid_same_node [OF grid] by simp
next
  fix p
  assume ne: "cors_to_node g origin \<noteq> cors_to_node g target"
    and p: "sp (graph g) (cors_to_node g origin) (cors_to_node g target) = Inr p"
    and cells: "cells = tl (map (\<lambda>n. (n div cols g, n mod cols g)) p)"
  from ends p have e: "p \<noteq> []" "hd p = cors_to_node g origin" "last p = cors_to_node g target"
    by (auto simp: joins_endpoints_def)
  then obtain a rest where ar: "p = a # rest" by (cases p) auto
  have "rest \<noteq> []" using e ne ar by auto
  then have "last (origin # cells) = (last p div cols g, last p mod cols g)"
    using ar cells by (simp add: last_map)
  then show ?thesis using e in_grid_node_roundtrip [OF grid(2)] by simp
qed

lemma py_index_in_range:
  "0 \<le> i \<Longrightarrow> i < int (length xs) \<Longrightarrow> py_index xs i = Inr (xs ! nat i)"
  by (simp add: py_index_def)

lemma upto_ends: "s \<le> t \<Longrightarrow> [s..t] \<noteq> [] \<and> hd [s..t] = s \<and> last [s..t] = t"
  using upto_rec1 [of s t] upto_rec2 [of s t] by (metis last_snoc list.sel(1) list.simps(3))

lemma path_graph_joins_endpoints: "joins_endpoints path_graph_shortest_path G"
proof -
  have "p \<noteq> [] \<and> hd p = s \<and> last p = t" if "path_graph_shortest_path G s t = Inr p" for s t p
  proof (cases "s \<le> t")
    case True
    then have "p = [s..t]"
      using that by (auto simp: path_graph_shortest_path_def Let_def split: if_splits)
    then show ?thesis using upto_ends [OF True] by simp
  next
    case False
    then have "p = rev [t..s]"
      using that by (auto simp: path_graph_shortest_path_def Let_def split: if_splits)
    moreover have "t \<le> s" using False by simp
    ultimately show ?thesis using upto_ends [of t s] by (simp add: hd_rev last_rev)
  qed
  then show ?thesis unfolding joins_endpoints_def by blast
qed

section \<open>The second heuristic: \<open>find_transfer_point_h2\<close>\<close>

text \<open>
  C4. Let \<open>cells\<close> and \<open>actions\<close> be the shortest path of the sender from its location
  \<open>loc\<close> to the passenger's destination. \<open>find_transfer_point_h2\<close> returns the cell at
  index \<open>max(0, min(fuel - 1, len(actions)))\<close> of \<open>loc\<close> followed by \<open>cells\<close>; this is
  \<open>loc\<close> when \<open>fuel - 1 \<le> 0\<close>, and the destination when \<open>fuel - 1 \<ge> len(actions)\<close>. The
  sender's location and the destination are cells of the grid, and the library's path runs
  from its source to its target.
\<close>

theorem find_transfer_point_h2_clamped_index:
  assumes "py_index ts from_taxi_index = Inr from_taxi"
    and "get_destination_cors env passenger_index = Inr dest"
    and "get_location env from_taxi = Inr loc"
    and "get_fuel env from_taxi = Inr fuel"
    and "get_path sp g loc dest = Inr (cells, actions)"
    and "joins_endpoints sp (graph g)"
    and "in_grid g loc" and "in_grid g dest"
  shows "find_transfer_point_h2 sp g env ts from_taxi_index passenger_index
       = Inr ((loc # cells) ! nat (max 0 (min (fuel - 1) (int (length actions)))))
     \<and> (fuel - 1 \<le> 0 \<longrightarrow>
          find_transfer_point_h2 sp g env ts from_taxi_index passenger_index = Inr loc)
     \<and> (int (length actions) \<le> fuel - 1 \<longrightarrow>
          find_transfer_point_h2 sp g env ts from_taxi_index passenger_index = Inr dest)"
proof -
  let ?i = "max 0 (min (fuel - 1) (int (length actions)))"
  have len: "length cells = length actions" by (rule get_path_lengths [OF assms(5)])
  have "py_index (loc # cells) ?i = Inr ((loc # cells) ! nat ?i)"
    using len by (intro py_index_in_range) auto
  then have r: "find_transfer_point_h2 sp g env ts from_taxi_index passenger_index
       = Inr ((loc # cells) ! nat ?i)"
    using assms(1-5) len
    by (simp add: find_transfer_point_h2_def compute_shortest_path_here)
  have "(loc # cells) ! nat ?i = loc" if "fuel - 1 \<le> 0"
    using that by (simp add: max_def min_def)
  moreover have "(loc # cells) ! nat ?i = dest" if "int (length actions) \<le> fuel - 1"
  proof -
    have "?i = int (length cells)" using that len by linarith
    then have "nat ?i = length cells" by simp
    then have "(loc # cells) ! nat ?i = last (loc # cells)"
      by (simp add: last_conv_nth)
    then show ?thesis using get_path_last_cell [OF assms(5) assms(6) assms(7) assms(8)] by simp
  qed
  ultimately show ?thesis using r by simp
qed

theorem find_transfer_point_h2_clamped_index_witness:
  "find_transfer_point_h2 path_graph_shortest_path corridor (corridor_env 2 2) two_taxis 0 0 = Inr (0, 1)
   \<and> find_transfer_point_h2 path_graph_shortest_path corridor (corridor_env 1 2) two_taxis 0 0 = Inr (0, 0)
   \<and> find_transfer_point_h2 path_graph_shortest_path corridor (corridor_env 5 2) two_taxis 0 0 = Inr (0, 2)"
proof -
  have gp: "get_path path_graph_shortest_path corridor (0, 0) (0, 2) = Inr ([(0, 1), (0, 2)], [2, 2])"
    by code_simp
  have grid: "in_grid corridor (0, 0)" "in_grid corridor (0, 2)"
    by (simp_all add: in_grid_def corridor_def)
  have look: "py_index two_taxis 0 = Inr (new_taxi 0 [])"
    "get_destination_cors (corridor_env f 2) 0 = Inr (0, 2)"
    "get_location (corridor_env f 2) (new_taxi 0 []) = Inr (0, 0)"
    "get_fuel (corridor_env f 2) (new_taxi 0 []) = Inr f" for f
    by (simp_all add: two_taxis_def new_taxi_def corridor_env_def get_location_def get_fuel_def
        get_destination_cors_def py_index_def)
  note th = find_transfer_point_h2_clamped_index
    [OF look(1) look(2) look(3) look(4) gp path_graph_joins_endpoints grid]
  show ?thesis using th [of 2] th [of 1] th [of 5] by simp
qed

section \<open>The exhaustive search: \<open>find_optimal_transfer_point\<close>\<close>

text \<open>
  The two nested loops keep the first cell, in row-major order, of least \<open>dist_from_dest\<close>
  among the cells they do not skip.
\<close>

lemma find_optimal_scan:
  assumes taxis: "py_index ts from_taxi_index = Inr from_taxi"
      "py_index ts to_taxi_index = Inr to_taxi"
    and dest: "get_destination_cors env passenger_index = Inr dest"
    and score: "\<And>c. c \<in> set (grid_cells g) \<Longrightarrow>
        dist_from_dest sp g env from_taxi to_taxi dest c = Inr (score c)"
  shows "find_optimal_transfer_point sp g env ts from_taxi_index to_taxi_index passenger_index =
     Inr (first_minimum (\<lambda>c. the (score c)) (filter (\<lambda>c. score c \<noteq> None) (grid_cells g)))"
proof -
  let ?key = "\<lambda>c. the (score c)"
  let ?step = "\<lambda>c s. if below (?key c) (fst s) then (Some (?key c), Some c) else s"
  let ?keep = "\<lambda>c. score c \<noteq> None"
  have body: "optimal_step sp g env from_taxi to_taxi dest c s = Inr (if ?keep c then ?step c s else s)"
    if "c \<in> set (grid_cells g)" for c s
    using score [OF that] by (cases "score c") (simp_all add: optimal_step_def)
  have "for_each (py_range (rows g)) (\<lambda>row. for_each (py_range (cols g)) (\<lambda>col.
            optimal_step sp g env from_taxi to_taxi dest (row, col))) (None, None)
      = for_each (grid_cells g) (optimal_step sp g env from_taxi to_taxi dest) (None, None)"
    unfolding grid_cells_def by (rule for_each_nested)
  also have "\<dots> = Inr (fold (\<lambda>c s. if ?keep c then ?step c s else s) (grid_cells g) (None, None))"
    by (rule for_each_pure) (rule body)
  also have "\<dots> = Inr (fold ?step (filter ?keep (grid_cells g)) (None, None))"
    by (simp only: fold_skip)
  finally have loop: "for_each (py_range (rows g)) (\<lambda>row. for_each (py_range (cols g)) (\<lambda>col.
            optimal_step sp g env from_taxi to_taxi dest (row, col))) (None, None)
      = Inr (fold ?step (filter ?keep (grid_cells g)) (None, None))" .
  show ?thesis
    by (simp add: find_optimal_transfer_point_def taxis dest loop fold_strict_min
        split: option.splits)
qed

text \<open>The value of \<open>dist_from_dest\<close> in terms of the three path costs and the two fuels.\<close>

lemma dist_from_dest_value:
  assumes "get_location env from_taxi = Inr sender_loc" "get_fuel env from_taxi = Inr sender_fuel"
    and "get_location env to_taxi = Inr receiver_loc" "get_fuel env to_taxi = Inr receiver_fuel"
    and "path_cost sp g sender_loc c = Inr a"
    and "path_cost sp g receiver_loc c = Inr b"
    and "path_cost sp g c dest = Inr d"
  shows "dist_from_dest sp g env from_taxi to_taxi dest c =
     Inr (if a > sender_fuel - 1 then None
          else if b > receiver_fuel - 1 then Some d
          else Some (max 0 (b + d - (receiver_fuel - 1))))"
  using assms by (simp add: dist_from_dest_def taxi_path_cost_here taxi_path_cost_from)

text \<open>
  C1, as the code has it. Let \<open>from_sender\<close>, \<open>from_receiver\<close> and \<open>to_dest\<close> be the
  shortest-path costs of every grid cell from the sender, from the receiver and to the
  passenger's destination. \<open>find_optimal_transfer_point\<close> returns the first cell, in
  row-major order, that minimises the score among the cells with
  \<open>from_sender \<le> sender_fuel - 1\<close>; the score is \<open>to_dest\<close> where
  \<open>from_receiver > receiver_fuel - 1\<close>, and
  \<open>max(0, (from_receiver + to_dest) - (receiver_fuel - 1))\<close> elsewhere: the sum holds the
  receiver's cost to the cell. When no cell has \<open>from_sender \<le> sender_fuel - 1\<close> the
  result is the initial \<open>[]\<close>.
\<close>

theorem find_optimal_transfer_point_first_minimum:
  assumes "py_index ts from_taxi_index = Inr from_taxi"
    and "py_index ts to_taxi_index = Inr to_taxi"
    and "get_destination_cors env passenger_index = Inr dest"
    and "get_location env from_taxi = Inr sender_loc"
    and "get_fuel env from_taxi = Inr sender_fuel"
    and "get_location env to_taxi = Inr receiver_loc"
    and "get_fuel env to_taxi = Inr receiver_fuel"
    and "\<forall>c \<in> set (grid_cells g).
           path_cost sp g sender_loc c = Inr (from_sender c) \<and>
           path_cost sp g receiver_loc c = Inr (from_receiver c) \<and>
           path_cost sp g c dest = Inr (to_dest c)"
  shows "find_optimal_transfer_point sp g env ts from_taxi_index to_taxi_index passenger_index =
     Inr (first_minimum
            (\<lambda>c. if from_receiver c > receiver_fuel - 1 then to_dest c
                 else max 0 (from_receiver c + to_dest c - (receiver_fuel - 1)))
            (filter (\<lambda>c. from_sender c \<le> sender_fuel - 1) (grid_cells g)))"
proof -
  let ?score = "\<lambda>c. if from_sender c > sender_fuel - 1 then None
          else if from_receiver c > receiver_fuel - 1 then Some (to_dest c)
          else Some (max 0 (from_receiver c + to_dest c - (receiver_fuel - 1)))"
  let ?key = "\<lambda>c. if from_receiver c > receiver_fuel - 1 then to_dest c
                 else max 0 (from_receiver c + to_dest c - (receiver_fuel - 1))"
  have "dist_from_dest sp g env from_taxi to_taxi dest c = Inr (?score c)"
    if "c \<in> set (grid_cells g)" for c
    using assms(8) that
    by (intro dist_from_dest_value [OF assms(4) assms(5) assms(6) assms(7)]) auto
  then have "find_optimal_transfer_point sp g env ts from_taxi_index to_taxi_index passenger_index
      = Inr (first_minimum (\<lambda>c. the (?score c)) (filter (\<lambda>c. ?score c \<noteq> None) (grid_cells g)))"
    by (rule find_optimal_scan [OF assms(1) assms(2) assms(3)])
  moreover have "filter (\<lambda>c. ?score c \<noteq> None) (grid_cells g)
      = filter (\<lambda>c. from_sender c \<le> sender_fuel - 1) (grid_cells g)"
    by (rule filter_cong) auto
  moreover have "first_minimum (\<lambda>c. the (?score c)) xs = first_minimum ?key xs"
    if "\<forall>c \<in> set xs. from_sender c \<le> sender_fuel - 1" for xs
  proof -
    have k: "the (?score c) = ?key c" if "c \<in> set xs" for c
      using that \<open>\<forall>c \<in> set xs. from_sender c \<le> sender_fuel - 1\<close> by auto
    have "list_all (\<lambda>y. the (?score x) \<le> the (?score y)) xs = list_all (\<lambda>y. ?key x \<le> ?key y) xs"
      if "x \<in> set xs" for x
      using k that by (simp add: list_all_iff)
    then show ?thesis
      unfolding first_minimum_def by (intro find_cong_set) blast
  qed
  ultimately show ?thesis by simp
qed

lemma corridor_cells: "grid_cells corridor = [(0, 0), (0, 1), (0, 2)]"
  by code_simp

lemma corridor_taxis:
  "py_index two_taxis 0 = Inr (new_taxi 0 [])"
  "py_index two_taxis 1 = Inr (new_taxi 1 [])"
  by (simp_all add: two_taxis_def py_index_def)

lemma corridor_lookups:
  "get_destination_cors (corridor_env f0 f1) 0 = Inr (0, 2)"
  "get_location (corridor_env f0 f1) (new_taxi 0 []) = Inr (0, 0)"
  "get_fuel (corridor_env f0 f1) (new_taxi 0 []) = Inr f0"
  "get_location (corridor_env f0 f1) (new_taxi 1 []) = Inr (0, 2)"
  "get_fuel (corridor_env f0 f1) (new_taxi 1 []) = Inr f1"
  "py_index (fuels (corridor_env f0 f1)) 0 = Inr f0"
  by (simp_all add: two_taxis_def new_taxi_def corridor_env_def get_location_def get_fuel_def
      get_destination_cors_def py_index_def)

lemma corridor_costs:
  "path_cost path_graph_shortest_path corridor (0, 0) (0, 0) = Inr 0"
  "path_cost path_graph_shortest_path corridor (0, 0) (0, 1) = Inr 1"
  "path_cost path_graph_shortest_path corridor (0, 0) (0, 2) = Inr 2"
  "path_cost path_graph_shortest_path corridor (0, 1) (0, 2) = Inr 1"
  "path_cost path_graph_shortest_path corridor (0, 2) (0, 0) = Inr 2"
  "path_cost path_graph_shortest_path corridor (0, 2) (0, 1) = Inr 1"
  "path_cost path_graph_shortest_path corridor (0, 2) (0, 2) = Inr 0"
  by code_simp+

theorem find_optimal_transfer_point_first_minimum_witness:
  "find_optimal_transfer_point path_graph_shortest_path corridor (corridor_env 3 2) two_taxis 0 1 0
     = Inr (Some (0, 2))"
proof -
  note look = corridor_lookups [of 3 2]
  show ?thesis
    using find_optimal_transfer_point_first_minimum
      [OF corridor_taxis(1) corridor_taxis(2) look(1) look(2) look(3) look(4) look(5),
        where sp = path_graph_shortest_path and g = corridor and from_sender = snd
          and from_receiver = "\<lambda>c. 2 - snd c" and to_dest = "\<lambda>c. 2 - snd c"]
    by (simp add: corridor_cells corridor_costs first_minimum_def)
qed

text \<open>
  C1 as stated fails on the corridor: the sender (fuel 3) is at \<open>[0, 0]\<close>, the receiver
  (fuel 2) on the destination \<open>[0, 2]\<close>. With the receiver's cost in the sum the scores of
  the three cells are 2, 1, 0 and the search returns \<open>[0, 2]\<close>; with the sender's cost they
  would be 2, 1, 1 and the first minimum would be \<open>[0, 1]\<close>.
\<close>

theorem find_optimal_transfer_point_sender_cost_counterexample:
  "find_optimal_transfer_point path_graph_shortest_path corridor (corridor_env 3 2) two_taxis 0 1 0
     = Inr (Some (0, 2))
   \<and> claimed_optimal_transfer_point path_graph_shortest_path corridor (corridor_env 3 2) two_taxis 0 1 0
     = Inr (Some (0, 1))"
  by code_simp

lemma dist_from_dest_skipped:
  assumes "get_location env from_taxi = Inr sender_loc" "get_fuel env from_taxi = Inr sender_fuel"
    and "path_cost sp g sender_loc c = Inr a" and "a > sender_fuel - 1"
  shows "dist_from_dest sp g env from_taxi to_taxi dest c = Inr None"
  using assms by (simp add: dist_from_dest_def taxi_path_cost_here)

text \<open>
  C10. When the shortest-path cost from the sender to every grid cell exceeds
  \<open>sender_fuel - 1\<close>, every cell is skipped and \<open>find_optimal_transfer_point\<close> returns the
  initial value of \<open>best_transfer_point\<close>, the empty list (\<open>None\<close>), not a cell and not an
  exception. This is so for a sender whose fuel is 0.
\<close>

theorem find_optimal_transfer_point_nothing_reachable:
  assumes "py_index ts from_taxi_index = Inr from_taxi"
    and "py_index ts to_taxi_index = Inr to_taxi"
    and "get_destination_cors env passenger_index = Inr dest"
    and "get_location env from_taxi = Inr sender_loc"
    and "get_fuel env from_taxi = Inr sender_fuel"
    and "\<forall>c \<in> set (grid_cells g).
           path_cost sp g sender_loc c = Inr (from_sender c) \<and> from_sender c > sender_fuel - 1"
  shows "find_optimal_transfer_point sp g env ts from_taxi_index to_taxi_index passenger_index
     = Inr None"
proof -
  have "dist_from_dest sp g env from_taxi to_taxi dest c = Inr ((\<lambda>c. None) c)"
    if "c \<in> set (grid_cells g)" for c
    using assms(6) that by (intro dist_from_dest_skipped [OF assms(4) assms(5)]) auto
  then have "find_optimal_transfer_point sp g env ts from_taxi_index to_taxi_index passenger_index
      = Inr (first_minimum (\<lambda>c. the ((\<lambda>c. None :: int option) c))
               (filter (\<lambda>c. (\<lambda>c. None :: int option) c \<noteq> None) (grid_cells g)))"
    by (rule find_optimal_scan [OF assms(1) assms(2) assms(3)])
  then show ?thesis by simp
qed

theorem find_optimal_transfer_point_nothing_reachable_witness:
  "find_optimal_transfer_point path_graph_shortest_path corridor (corridor_env 0 2) two_taxis 0 1 0
     = Inr None"
proof -
  note look = corridor_lookups [of 0 2]
  show ?thesis
    using find_optimal_transfer_point_nothing_reachable
      [OF corridor_taxis(1) corridor_taxis(2) look(1) look(2) look(3),
        where sp = path_graph_shortest_path and g = corridor and from_sender = snd]
    by (simp add: corridor_cells corridor_costs)
qed

section \<open>The graph the constructor builds\<close>





section \<open>Walks and shortest walks\<close>

lemma is_walk_nonempty: "is_walk G p \<Longrightarrow> p \<noteq> []"
  by (cases p) simp_all






section \<open>Cells and nodes of the grid\<close>




section \<open>Path costs on a connected grid\<close>





section \<open>The optimality bound\<close>

















section \<open>The first heuristic with fuel to spare\<close>

lemma min_by_key_map:
  assumes "\<And>x. key (f x) = key' x"
  shows "min_by_key key (f b) (map f xs) = f (min_by_key key' b xs)"
proof (induction xs arbitrary: b)
  case Nil
  then show ?case by simp
next
  case (Cons x xs)
  show ?case
    by (cases "key' x < key' b") (simp_all add: assms Cons.IH)
qed

lemma off_road_entry_value:
  assumes "py_index ts from_taxi_index = Inr from_taxi"
    and "get_location env from_taxi = Inr sender_loc"
    and "get_path sp g sender_loc point = Inr (cells, actions)"
    and "0 \<le> budget"
  shows "off_road_entry sp g env ts from_taxi_index budget point =
     Inr (max 0 (int (length actions) - budget),
          if 0 < max 0 (int (length actions) - budget)
          then (sender_loc # cells) ! nat budget else point)"
proof (cases "int (length actions) \<le> budget")
  case True
  then show ?thesis
    using assms(1-3) by (simp add: off_road_entry_def compute_shortest_path_here)
next
  case False
  have len: "length cells = length actions" by (rule get_path_lengths [OF assms(3)])
  have "py_index (sender_loc # cells) budget = Inr ((sender_loc # cells) ! nat budget)"
    using False assms(4) len by (intro py_index_in_range) simp_all
  moreover have "min budget (int (length actions)) = budget" using False by simp
  ultimately show ?thesis
    using assms(1-3) False
    by (simp add: off_road_entry_def compute_shortest_path_here max_def)
qed

text \<open>
  With at least one unit of fuel in the sender, \<open>find_transfer_point_h1\<close> takes as
  candidates the receiver's location followed by the cells of its shortest path to the
  destination, gives each the shortfall \<open>max(0, len(path to it) - (fuel - 1))\<close> of the
  sender, picks the first candidate of least shortfall, and returns that candidate when its
  shortfall is 0 and otherwise the cell \<open>fuel - 1\<close> steps along the sender's path to it.
\<close>

theorem find_transfer_point_h1_with_fuel:
  assumes "py_index ts to_taxi_index = Inr to_taxi"
    and "py_index ts from_taxi_index = Inr from_taxi"
    and "get_destination_cors env passenger_index = Inr dest"
    and "get_location env to_taxi = Inr receiver_loc"
    and "get_location env from_taxi = Inr sender_loc"
    and "py_index (fuels env) from_taxi_index = Inr sender_fuel"
    and "get_path sp g receiver_loc dest = Inr (cells, actions)"
    and "\<forall>c \<in> set (receiver_loc # cells).
           get_path sp g sender_loc c = Inr (cells_to c, actions_to c)"
    and "1 \<le> sender_fuel"
  shows "find_transfer_point_h1 sp g env ts from_taxi_index to_taxi_index passenger_index =
     Inr (let shortfall = (\<lambda>c. max 0 (int (length (actions_to c)) - (sender_fuel - 1)));
              c = the (first_minimum shortfall (receiver_loc # cells))
          in if shortfall c = 0 then c else (sender_loc # cells_to c) ! nat (sender_fuel - 1))"
proof -
  let ?shortfall = "\<lambda>c. max 0 (int (length (actions_to c)) - (sender_fuel - 1))"
  let ?entry = "\<lambda>c. (?shortfall c,
      if 0 < ?shortfall c then (sender_loc # cells_to c) ! nat (sender_fuel - 1) else c)"
  have budget: "0 \<le> sender_fuel - 1" using assms(9) by simp
  have "off_road_entry sp g env ts from_taxi_index (sender_fuel - 1) c = Inr (?entry c)"
    if "c \<in> set (receiver_loc # cells)" for c
    using assms(8) that by (intro off_road_entry_value [OF assms(2) assms(5) _ budget]) blast
  then have entries: "map_result (off_road_entry sp g env ts from_taxi_index (sender_fuel - 1))
      (receiver_loc # cells) = Inr (map ?entry (receiver_loc # cells))"
    by (rule map_result_pure)
  have "min_by_key fst (?entry receiver_loc) (map ?entry cells)
      = ?entry (min_by_key ?shortfall receiver_loc cells)"
    by (rule min_by_key_map) simp
  then have best: "py_min fst (map ?entry (receiver_loc # cells))
      = Inr (?entry (the (first_minimum ?shortfall (receiver_loc # cells))))"
    by (simp add: py_min_def first_minimum_min_by_key)
  have "find_transfer_point_h1 sp g env ts from_taxi_index to_taxi_index passenger_index
      = Inr (snd (?entry (the (first_minimum ?shortfall (receiver_loc # cells)))))"
    using assms(1) assms(3) assms(4) assms(6) assms(7) entries best
    by (simp add: find_transfer_point_h1_def compute_shortest_path_here)
  also have "snd (?entry (the (first_minimum ?shortfall (receiver_loc # cells))))
      = (let shortfall = ?shortfall; c = the (first_minimum shortfall (receiver_loc # cells))
         in if shortfall c = 0 then c else (sender_loc # cells_to c) ! nat (sender_fuel - 1))"
    by (simp add: Let_def max_def)
  finally show ?thesis .
qed

lemma corridor_paths_from_sender:
  "get_path path_graph_shortest_path corridor (0, 0) (0, 2) = Inr ([(0, 1), (0, 2)], [2, 2])"
  "get_path path_graph_shortest_path corridor (0, 2) (0, 2) = Inr ([], [])"
  by code_simp+

theorem find_transfer_point_h1_with_fuel_witness:
  "find_transfer_point_h1 path_graph_shortest_path corridor (corridor_env 2 2) two_taxis 0 1 0
     = Inr (0, 1)"
proof -
  note look = corridor_lookups [of 2 2]
  show ?thesis
    using find_transfer_point_h1_with_fuel
      [OF corridor_taxis(2) corridor_taxis(1) look(1) look(4) look(2) look(6)
        corridor_paths_from_sender(2),
        where cells_to = "\<lambda>c. [(0, 1), (0, 2)]" and actions_to = "\<lambda>c. [2, 2]"]
    by (simp add: corridor_paths_from_sender first_minimum_def)
qed

section \<open>Queueing a pickup for a passenger other than passenger 0\<close>

text \<open>
  \<open>send_taxi_to_pickup\<close> leaves the taxi as it is when no passenger is assigned and none
  is specified. When a passenger index other than 0 is specified, or none is specified and
  the assignment list is not empty, it appends the actions of the shortest path from the
  taxi's location to the chosen passenger's location, followed by one pickup action; the
  chosen passenger is the specified one, or else the head of the assignment list.
\<close>

theorem send_taxi_to_pickup_queue:
  assumes "passenger_index \<noteq> Some 0"
    and "chosen = (case passenger_index of Some i \<Rightarrow> i | None \<Rightarrow> hd (assigned_passengers t))"
    and "py_index (passengers_start_location env) chosen = Inr passenger_location"
    and "get_location env t = Inr loc"
    and "get_path sp g loc passenger_location = Inr (cells, actions)"
    and "action_index_dictionary env ''pickup'' = Some pickup"
  shows "send_taxi_to_pickup sp g env t passenger_index =
     Inr (if assigned_passengers t = [] \<and> passenger_index = None then t
          else t\<lparr>actions_queue := actions_queue t @ actions @ [pickup]\<rparr>)"
proof (cases "assigned_passengers t = [] \<and> passenger_index = None")
  case True
  then show ?thesis by (simp add: send_taxi_to_pickup_def)
next
  case False
  have pick: "(case passenger_index of
                 None \<Rightarrow> py_index (assigned_passengers t) 0
               | Some i \<Rightarrow> if i \<noteq> 0 then Inr i else py_index (assigned_passengers t) 0)
      = Inr chosen"
  proof (cases passenger_index)
    case None
    then have "assigned_passengers t \<noteq> []" using False by simp
    then have "py_index (assigned_passengers t) 0 = Inr (hd (assigned_passengers t))"
      by (cases "assigned_passengers t") (simp_all add: py_index_def)
    then show ?thesis using None assms(2) by simp
  next
    case (Some i)
    then show ?thesis using assms(1) assms(2) by simp
  qed
  have "send_taxi_to_point sp g env t passenger_location
      = Inr (t\<lparr>actions_queue := actions_queue t @ actions\<rparr>)"
    using assms(4) assms(5) by (simp add: send_taxi_to_point_def compute_shortest_path_here)
  then show ?thesis
    using False pick assms(3) assms(6) by (simp add: send_taxi_to_pickup_def)
qed

theorem send_taxi_to_pickup_queue_witness:
  "send_taxi_to_pickup path_graph_shortest_path corridor (corridor_env 3 2) (new_taxi 0 []) (Some 1)
     = Inr ((new_taxi 0 [])\<lparr>actions_queue := [2, 2, 4]\<rparr>)
   \<and> send_taxi_to_pickup path_graph_shortest_path corridor (corridor_env 3 2) (new_taxi 0 []) None
     = Inr (new_taxi 0 [])"
proof -
  have a: "py_index (passengers_start_location (corridor_env 3 2)) 1 = Inr (0, 2)"
    "get_location (corridor_env 3 2) (new_taxi 0 []) = Inr (0, 0)"
    "action_index_dictionary (corridor_env 3 2) ''pickup'' = Some 4"
    by (simp_all add: corridor_env_def new_taxi_def get_location_def py_index_def actions_table_def)
  have one: "send_taxi_to_pickup path_graph_shortest_path corridor (corridor_env 3 2)
      (new_taxi 0 []) (Some 1) = Inr ((new_taxi 0 [])\<lparr>actions_queue := [2, 2, 4]\<rparr>)"
    using send_taxi_to_pickup_queue
      [of "Some 1" 1 "new_taxi 0 []" "corridor_env 3 2" "(0, 2)" "(0, 0)"
        path_graph_shortest_path corridor "[(0, 1), (0, 2)]" "[2, 2]" 4]
    by (simp add: a corridor_paths_from_sender) (simp add: new_taxi_def)
  have none: "send_taxi_to_pickup path_graph_shortest_path corridor (corridor_env 3 2)
      (new_taxi 0 []) None = Inr (new_taxi 0 [])"
    by (simp add: send_taxi_to_pickup_def new_taxi_def)
  show ?thesis using one none by simp
qed

section \<open>Actions and cells of a path on a map of two or more columns\<close>

lemma next_in_row:
  assumes "0 < c" and "a mod c \<noteq> c - 1"
  shows "(a + 1) div c = a div c" and "(a + 1) mod c = a mod c + (1 :: int)"
proof -
  have r: "0 \<le> a mod c + 1" "a mod c + 1 < c"
    using assms pos_mod_bound [of c a] pos_mod_sign [of c a] by linarith+
  have eq: "a + 1 = c * (a div c) + (a mod c + 1)" by simp
  show "(a + 1) div c = a div c" by (rule int_div_pos_eq [OF eq r])
  show "(a + 1) mod c = a mod c + 1" by (rule int_mod_pos_eq [OF eq r])
qed

lemma next_row:
  assumes "0 < c"
  shows "(a + c) div c = a div c + (1 :: int)" and "(a + c) mod c = a mod c"
proof -
  have "c \<noteq> 0" using assms by simp
  then show "(a + c) div c = a div c + 1" by (rule div_add_self2)
  show "(a + c) mod c = a mod c" by simp
qed

lemma path_action_moves:
  assumes adj: "adjacent_cells_only g" and cols: "2 \<le> cols g"
    and edge: "(a, b) \<in> set (edges (graph g)) \<or> (b, a) \<in> set (edges (graph g))"
  shows "move (a div cols g, a mod cols g)
           (if b - a = - 1 then 3 else if b - a = 1 then 2 else if b - a = - cols g then 1 else 0)
         = (b div cols g, b mod cols g)"
proof -
  let ?c = "cols g"
  have c: "0 < ?c" using cols by simp
  from edge show ?thesis
  proof
    assume "(a, b) \<in> set (edges (graph g))"
    then have "snd (a, b) = fst (a, b) + ?c \<or>
        (snd (a, b) = fst (a, b) + 1 \<and> fst (a, b) mod ?c \<noteq> ?c - 1)"
      using adj unfolding adjacent_cells_only_def by blast
    then consider "b = a + ?c" | "b = a + 1" "a mod ?c \<noteq> ?c - 1" by auto
    then show ?thesis
    proof cases
      case 1
      then show ?thesis using cols next_row [OF c, of a] by (simp add: move_def)
    next
      case 2
      then show ?thesis using next_in_row [OF c 2(2)] by (simp add: move_def)
    qed
  next
    assume "(b, a) \<in> set (edges (graph g))"
    then have "snd (b, a) = fst (b, a) + ?c \<or>
        (snd (b, a) = fst (b, a) + 1 \<and> fst (b, a) mod ?c \<noteq> ?c - 1)"
      using adj unfolding adjacent_cells_only_def by blast
    then consider "a = b + ?c" | "a = b + 1" "b mod ?c \<noteq> ?c - 1" by auto
    then show ?thesis
    proof cases
      case 1
      then show ?thesis using cols next_row [OF c, of b] by (simp add: move_def)
    next
      case 2
      then show ?thesis using next_in_row [OF c 2(2)] by (simp add: move_def)
    qed
  qed
qed

lemma follow_path_actions:
  assumes "adjacent_cells_only g" and "2 \<le> cols g"
  shows "is_walk (graph g) p \<Longrightarrow>
     follow (hd p div cols g, hd p mod cols g) (path_actions (cols g) p)
       = tl (map (\<lambda>n. (n div cols g, n mod cols g)) p)"
proof (induction p)
  case Nil
  then show ?case by simp
next
  case (Cons a p)
  show ?case
  proof (cases p)
    case Nil
    then show ?thesis by simp
  next
    case pc: (Cons b rest)
    then have e: "(a, b) \<in> set (edges (graph g)) \<or> (b, a) \<in> set (edges (graph g))"
      and w: "is_walk (graph g) p"
      using Cons.prems by simp_all
    have step: "move (a div cols g, a mod cols g)
         (if b - a = - 1 then 3 else if b - a = 1 then 2 else if b - a = - cols g then 1 else 0)
       = (b div cols g, b mod cols g)"
      by (rule path_action_moves [OF assms e])
    have "follow (b div cols g, b mod cols g) (path_actions (cols g) (b # rest))
        = tl (map (\<lambda>n. (n div cols g, n mod cols g)) (b # rest))"
      using Cons.IH [OF w] pc by simp
    then show ?thesis using pc step by (simp add: Let_def)
  qed
qed

lemma add_node_edges_result:
  assumes "add_node_edges desc r c i es = Inr es'"
  shows "\<exists>south east. es' = es @ south @ east \<and>
     (south = [] \<or> south = [(i, (i div c + 1) * c + i mod c)]) \<and>
     (east = [] \<or>
      (east = [(i, i div c * c + (i mod c + 1))] \<and>
       desc_at desc (i div c + 1) (i mod c * 2 + 2) = Inr CHR '':''))"
proof -
  from assms obtain below right where
    b: "desc_at desc (i div c + 2) (i mod c * 2 + 1) = Inr below"
    and r: "desc_at desc (i div c + 1) (i mod c * 2 + 2) = Inr right"
    unfolding add_node_edges_def Let_def rbind_eq_Inr_iff by blast
  let ?south = "if below \<noteq> CHR ''-'' then [(i, (i div c + 1) * c + i mod c)] else []"
  let ?east = "if right = CHR '':'' then [(i, i div c * c + (i mod c + 1))] else []"
  have "es' = es @ ?south @ ?east"
    using assms b r unfolding add_node_edges_def Let_def
    by (simp split: if_splits)
  moreover have "?south = [] \<or> ?south = [(i, (i div c + 1) * c + i mod c)]" by simp
  moreover have "?east = [] \<or>
      (?east = [(i, i div c * c + (i mod c + 1))] \<and>
       desc_at desc (i div c + 1) (i mod c * 2 + 2) = Inr CHR '':'')"
    using r by simp
  ultimately show ?thesis by blast
qed

lemma add_node_edges_adjacent:
  assumes "add_node_edges desc r c i es = Inr es'"
    and "\<forall>e \<in> set es. snd e = fst e + c \<or> (snd e = fst e + 1 \<and> fst e mod c \<noteq> c - 1)"
    and "\<forall>line \<in> set desc. py_index line (2 * c) \<noteq> Inr CHR '':''"
  shows "\<forall>e \<in> set es'. snd e = fst e + c \<or> (snd e = fst e + 1 \<and> fst e mod c \<noteq> c - 1)"
proof -
  let ?ok = "\<lambda>e. snd e = fst e + c \<or> (snd e = fst e + 1 \<and> fst e mod c \<noteq> c - 1)"
  obtain south east where es': "es' = es @ south @ east"
    and south: "south = [] \<or> south = [(i, (i div c + 1) * c + i mod c)]"
    and east: "east = [] \<or>
      (east = [(i, i div c * c + (i mod c + 1))] \<and>
       desc_at desc (i div c + 1) (i mod c * 2 + 2) = Inr CHR '':'')"
    using add_node_edges_result [OF assms(1)] by blast
  have s: "(i div c + 1) * c + i mod c = i + c" by (simp add: algebra_simps)
  have e: "i div c * c + (i mod c + 1) = i + 1" by (simp add: algebra_simps)
  have "\<forall>x \<in> set south. ?ok x"
  proof -
    from south show ?thesis
    proof
      assume "south = []"
      then show ?thesis by simp
    next
      assume "south = [(i, (i div c + 1) * c + i mod c)]"
      then have "south = [(i, i + c)]" by (simp only: s)
      then show ?thesis by simp
    qed
  qed
  moreover have "\<forall>x \<in> set east. ?ok x"
  proof -
    from east show ?thesis
    proof
      assume "east = []"
      then show ?thesis by simp
    next
      assume a: "east = [(i, i div c * c + (i mod c + 1))] \<and>
         desc_at desc (i div c + 1) (i mod c * 2 + 2) = Inr CHR '':''"
      then have ei: "east = [(i, i + 1)]" by (simp only: e)
      have "i mod c \<noteq> c - 1"
      proof
        assume last: "i mod c = c - 1"
        have "i mod c * 2 + 2 = 2 * c" by (simp add: last)
        then have "desc_at desc (i div c + 1) (2 * c) = Inr CHR '':''" using a by simp
        then obtain line where l: "py_index desc (i div c + 1) = Inr line"
          and "py_index line (2 * c) = Inr CHR '':''"
          unfolding desc_at_def rbind_eq_Inr_iff by blast
        moreover have "line \<in> set desc"
          using l by (auto simp: py_index_def split: if_splits)
        ultimately show False using assms(3) by blast
      qed
      then show ?thesis using ei by simp
    qed
  qed
  ultimately show ?thesis using assms(2) by (auto simp: es')
qed

lemma for_each_add_node_edges_adjacent:
  assumes "for_each xs (add_node_edges desc r c) es = Inr es'"
    and "\<forall>e \<in> set es. snd e = fst e + c \<or> (snd e = fst e + 1 \<and> fst e mod c \<noteq> c - 1)"
    and "\<forall>line \<in> set desc. py_index line (2 * c) \<noteq> Inr CHR '':''"
  shows "\<forall>e \<in> set es'. snd e = fst e + c \<or> (snd e = fst e + 1 \<and> fst e mod c \<noteq> c - 1)"
  using assms(1,2)
proof (induction xs arbitrary: es)
  case Nil
  then show ?case by simp
next
  case (Cons i xs)
  from Cons.prems(1) obtain es1 where s1: "add_node_edges desc r c i es = Inr es1"
    and s2: "for_each xs (add_node_edges desc r c) es1 = Inr es'"
    by (auto simp: rbind_eq_Inr_iff)
  have "\<forall>e \<in> set es1. snd e = fst e + c \<or> (snd e = fst e + 1 \<and> fst e mod c \<noteq> c - 1)"
    by (rule add_node_edges_adjacent [OF s1 Cons.prems(2) assms(3)])
  then show ?case by (rule Cons.IH [OF s2])
qed

lemma env_graph_init_adjacent:
  assumes "env_graph_init desc = Inr g"
    and "\<forall>line \<in> set desc. py_index line (2 * cols g) \<noteq> Inr CHR '':''"
  shows "adjacent_cells_only g"
proof -
  from assms(1) obtain r c es where
    es: "for_each (py_range (r * c)) (add_node_edges desc r c) [] = Inr es"
    and g: "g = \<lparr>rows = r, cols = c, graph = \<lparr>nodes = py_range (r * c), edges = es\<rparr>\<rparr>"
    unfolding env_graph_init_def Let_def rbind_eq_Inr_iff by blast
  have border: "\<forall>line \<in> set desc. py_index line (2 * c) \<noteq> Inr CHR '':''"
    using assms(2) by (simp add: g)
  have "\<forall>e \<in> set es. snd e = fst e + c \<or> (snd e = fst e + 1 \<and> fst e mod c \<noteq> c - 1)"
    by (rule for_each_add_node_edges_adjacent [OF es _ border]) simp
  then show ?thesis by (simp add: adjacent_cells_only_def g)
qed

text \<open>
  On a map of two or more columns whose right border is closed (no \<open>:\<close> in the last
  position of a line), with a library that returns walks: the actions of a returned path,
  followed from the origin, visit exactly the returned cells, and the last of them is the
  target.
\<close>

theorem get_path_actions_visit_cells:
  assumes "env_graph_init desc = Inr g"
    and "\<forall>line \<in> set desc. py_index line (2 * cols g) \<noteq> Inr CHR '':''"
    and "2 \<le> cols g"
    and "returns_walks sp (graph g)"
    and "in_grid g origin" and "in_grid g target"
    and "get_path sp g origin target = Inr (cells, actions)"
  shows "follow origin actions = cells \<and> last (origin # cells) = target
     \<and> path_cost sp g origin target = Inr (int (length actions))"
proof -
  have adj: "adjacent_cells_only g" by (rule env_graph_init_adjacent [OF assms(1) assms(2)])
  have ends: "joins_endpoints sp (graph g)"
    using assms(4) is_walk_nonempty unfolding joins_endpoints_def returns_walks_def by blast
  have last: "last (origin # cells) = target"
    by (rule get_path_last_cell [OF assms(7) ends assms(5) assms(6)])
  have "follow origin actions = cells"
    using get_path_Inr_cases [OF assms(7)]
  proof (elim disjE conjE exE)
    assume "cells = []" "actions = []"
    then show ?thesis by simp
  next
    fix p
    assume p: "sp (graph g) (cors_to_node g origin) (cors_to_node g target) = Inr p"
      and cells: "cells = tl (map (\<lambda>n. (n div cols g, n mod cols g)) p)"
      and actions: "actions = path_actions (cols g) p"
    from assms(4) p have walk: "is_walk (graph g) p" and hd: "hd p = cors_to_node g origin"
      unfolding returns_walks_def by blast+
    have "(hd p div cols g, hd p mod cols g) = origin"
      using hd in_grid_node_roundtrip [OF assms(5)] by simp
    then show ?thesis
      using follow_path_actions [OF adj assms(3) walk] cells actions by simp
  qed
  then show ?thesis using last path_cost_is_length [OF assms(7)] by simp
qed

lemma path_graph_returns_walks: "returns_walks path_graph_shortest_path G"
proof -
  have "is_walk G p" if "path_graph_shortest_path G s t = Inr p" for s t p
    using that by (auto simp: path_graph_shortest_path_def Let_def split: if_splits)
  then show ?thesis
    using path_graph_joins_endpoints [of G]
    unfolding returns_walks_def joins_endpoints_def by blast
qed

theorem get_path_actions_visit_cells_witness:
  "follow (0, 2) [3, 3] = [(0, 1), (0, 0)] \<and> last [(0, 2), (0, 1), (0, 0)] = (0, 0)
   \<and> path_cost path_graph_shortest_path corridor (0, 2) (0, 0) = Inr 2"
proof -
  have gp: "get_path path_graph_shortest_path corridor (0, 2) (0, 0) = Inr ([(0, 1), (0, 0)], [3, 3])"
    by code_simp
  have border: "\<forall>line \<in> set corridor_map. py_index line (2 * cols corridor) \<noteq> Inr CHR '':''"
    by (simp add: corridor_map_def corridor_def py_index_def)
  have grid: "in_grid corridor (0, 2)" "in_grid corridor (0, 0)" "2 \<le> cols corridor"
    by (simp_all add: in_grid_def corridor_def)
  show ?thesis
    using get_path_actions_visit_cells
      [OF corridor_init border grid(3) path_graph_returns_walks grid(1) grid(2) gp]
    by (simp add: move_def)
qed

end
